theory Spec2Isabelle
  imports Main
begin

section \<open>JavaScript values and the built-ins the code calls\<close>

text \<open>
  Messages and payloads are the values \<open>JSON.parse\<close> produces. Numbers are the
  integral ones (what an id or a counter is); strings are ASCII byte lists, which is
  also their UTF-8 encoding. An object is its list of own properties in enumeration
  order, with distinct keys. \<open>undefined\<close> is \<open>None\<close> of a \<open>json option\<close>.
\<close>

datatype json =
  JNull
| JBool bool
| JNum int
| JStr string
| JArr "json list"
| JObj "(string \<times> json) list"

definition digit_char :: "nat \<Rightarrow> char" where
  "digit_char d = ''0123456789'' ! d"

text \<open>\<open>Number.prototype.toString\<close> on a non-negative integer.\<close>

fun string_of_nat :: "nat \<Rightarrow> string" where
  "string_of_nat n =
     (if n < 10 then [digit_char n]
      else string_of_nat (n div 10) @ [digit_char (n mod 10)])"

declare string_of_nat.simps [simp del]

definition string_of_int :: "int \<Rightarrow> string" where
  "string_of_int i =
     (if i < 0 then CHR ''-'' # string_of_nat (nat (- i)) else string_of_nat (nat i))"

text \<open>\<open>String.prototype.padStart(n, "0")\<close>.\<close>

definition padStart0 :: "nat \<Rightarrow> string \<Rightarrow> string" where
  "padStart0 n s = replicate (n - length s) (CHR ''0'') @ s"

fun join_with :: "string \<Rightarrow> string list \<Rightarrow> string" where
  "join_with sep [] = []"
| "join_with sep [x] = x"
| "join_with sep (x # y # ys) = x @ sep @ join_with sep (y # ys)"

text \<open>
  \<open>String(value)\<close>: a string is itself, an array is its elements joined by commas
  (with \<open>null\<close> elements printed empty), a plain object is \<open>[object Object]\<close>.
\<close>

fun js_String :: "json \<Rightarrow> string" where
  "js_String JNull = ''null''"
| "js_String (JBool b) = (if b then ''true'' else ''false'')"
| "js_String (JNum i) = string_of_int i"
| "js_String (JStr s) = s"
| "js_String (JArr xs) =
     join_with '','' (map (\<lambda>x. if x = JNull then [] else js_String x) xs)"
| "js_String (JObj kvs) = ''[object Object]''"

definition is_space :: "char \<Rightarrow> bool" where
  "is_space c = (c \<in> set [CHR '' '', CHR 0x09, CHR 0x0A, CHR 0x0B, CHR 0x0C, CHR 0x0D])"

text \<open>\<open>String.prototype.trim\<close>.\<close>

definition js_trim :: "string \<Rightarrow> string" where
  "js_trim s = rev (dropWhile is_space (rev (dropWhile is_space s)))"

definition is_digit :: "char \<Rightarrow> bool" where
  "is_digit c = (c \<in> set ''0123456789'')"

abbreviation is_zero_char :: "char \<Rightarrow> bool" where
  "is_zero_char \<equiv> (\<lambda>c. c = CHR ''0'')"

text \<open>
  \<open>str.replace(/^0+(?=\d)/, "")\<close>. The greedy \<open>0+\<close> first takes every leading zero
  and gives them back one at a time until a digit follows; \<open>zeros_match s k\<close> is the
  length of the match found when at most \<open>k\<close> zeros may be taken.
\<close>

fun zeros_match :: "string \<Rightarrow> nat \<Rightarrow> nat option" where
  "zeros_match s 0 = None"
| "zeros_match s (Suc k) =
     (if Suc k < length s \<and> is_digit (s ! Suc k) then Some (Suc k) else zeros_match s k)"

definition strip_leading_zeros :: "string \<Rightarrow> string" where
  "strip_leading_zeros s =
     (case zeros_match s (length (takeWhile is_zero_char s)) of
        None \<Rightarrow> s
      | Some k \<Rightarrow> drop k s)"

text \<open>\<open>JSON.stringify\<close>.\<close>

definition hex_char :: "nat \<Rightarrow> char" where
  "hex_char d = ''0123456789abcdef'' ! d"

definition json_escape :: "char \<Rightarrow> string" where
  "json_escape c =
     (if c = CHR 0x22 then [CHR 0x5C, CHR 0x22]
      else if c = CHR 0x5C then [CHR 0x5C, CHR 0x5C]
      else if c = CHR 0x08 then [CHR 0x5C, CHR ''b'']
      else if c = CHR 0x0C then [CHR 0x5C, CHR ''f'']
      else if c = CHR 0x0A then [CHR 0x5C, CHR ''n'']
      else if c = CHR 0x0D then [CHR 0x5C, CHR ''r'']
      else if c = CHR 0x09 then [CHR 0x5C, CHR ''t'']
      else if of_char c < (32 :: nat) then
        [CHR 0x5C, CHR ''u'', CHR ''0'', CHR ''0'',
         hex_char (of_char c div 16), hex_char (of_char c mod 16)]
      else [c])"

definition json_quote :: "string \<Rightarrow> string" where
  "json_quote s = CHR 0x22 # concat (map json_escape s) @ [CHR 0x22]"

fun stringify :: "json \<Rightarrow> string" where
  "stringify JNull = ''null''"
| "stringify (JBool b) = (if b then ''true'' else ''false'')"
| "stringify (JNum i) = string_of_int i"
| "stringify (JStr s) = json_quote s"
| "stringify (JArr xs) = ''['' @ join_with '','' (map stringify xs) @ '']''"
| "stringify (JObj kvs) =
     ''{'' @ join_with '','' (map (\<lambda>kv. json_quote (fst kv) @ '':'' @ stringify (snd kv)) kvs)
       @ ''}''"

text \<open>Truthiness and \<open>typeof\<close>, as \<open>handleMessage\<close> tests them.\<close>

fun truthy :: "json \<Rightarrow> bool" where
  "truthy JNull = False"
| "truthy (JBool b) = b"
| "truthy (JNum i) = (i \<noteq> 0)"
| "truthy (JStr s) = (s \<noteq> [])"
| "truthy (JArr xs) = True"
| "truthy (JObj kvs) = True"

fun js_typeof :: "json \<Rightarrow> string" where
  "js_typeof JNull = ''object''"
| "js_typeof (JBool b) = ''boolean''"
| "js_typeof (JNum i) = ''number''"
| "js_typeof (JStr s) = ''string''"
| "js_typeof (JArr xs) = ''object''"
| "js_typeof (JObj kvs) = ''object''"

text \<open>
  Property read \<open>msg.k\<close> for a key that is neither an index nor \<open>length\<close>: an own
  property of an object, \<open>undefined\<close> on an array.
\<close>

fun js_get :: "json \<Rightarrow> string \<Rightarrow> json option" where
  "js_get (JObj kvs) k = map_of kvs k"
| "js_get v k = None"

definition nullish :: "json option \<Rightarrow> bool" where
  "nullish v = (v = None \<or> v = Some JNull)"

text \<open>\<open>a ?? b\<close>.\<close>

definition coalesce :: "json option \<Rightarrow> json option \<Rightarrow> json option" where
  "coalesce a b = (if nullish a then b else a)"

text \<open>\<open>{...payload, id: v}\<close>: an existing key keeps its place, a new one goes last.\<close>

definition obj_set :: "(string \<times> json) list \<Rightarrow> string \<Rightarrow> json \<Rightarrow> (string \<times> json) list" where
  "obj_set kvs k v =
     (if k \<in> fst ` set kvs then map (\<lambda>kv. if fst kv = k then (k, v) else kv) kvs
      else kvs @ [(k, v)])"


section \<open>BusManager (busManager.ts)\<close>

text \<open>
  A \<open>PendingRequest\<close> object. \<open>uid\<close> is the identity of the object (the number of
  requests created before it): the suspended \<open>processQueue\<close> and the field \<open>current\<close>
  may hold the same object, and the \<open>timer\<close> field is written through either.
  The \<open>resolve\<close>/\<open>reject\<close> pair is the promise of that object; settling it is
  recorded in \<open>settled\<close>. The \<open>timer\<close> field is kept in \<open>armed\<close>.
\<close>

record pending =
  uid :: nat
  pid :: json
  payload :: "(string \<times> json) list"
  timeoutMs :: nat

datatype outcome = Resolved "json option" | Rejected string

text \<open>
  The fields of the class, and what it has done to the world around it:
  \<open>sends\<close> are the calls of \<open>transport.sendCommand\<close> in order, \<open>awaiting\<close> the
  requests whose \<open>processQueue\<close> is suspended at \<open>await transport.sendCommand\<close>,
  \<open>armed\<close> the requests whose timeout timer is set and has neither fired nor been
  cleared, \<open>settled\<close> the promises resolved or rejected, \<open>warnings\<close> the lines of
  \<open>console.warn\<close>.
\<close>

record bus =
  initialized :: bool
  queue :: "pending list"
  current :: "pending option"
  nextIdValue :: nat
  nextUid :: nat
  sends :: "pending list"
  awaiting :: "nat list"
  armed :: "nat list"
  settled :: "(nat \<times> outcome) list"
  warnings :: "string list"

definition new_bus :: bus where
  "new_bus =
     \<lparr>initialized = False, queue = [], current = None, nextIdValue = 0, nextUid = 0,
      sends = [], awaiting = [], armed = [], settled = [], warnings = []\<rparr>"

definition init :: "bus \<Rightarrow> bus" where
  "init s = (if initialized s then s else s\<lparr>initialized := True\<rparr>)"

definition nextRequestId :: "bus \<Rightarrow> string \<times> bus" where
  "nextRequestId s =
     (let i = nextIdValue s mod 1000;
          s' = s\<lparr>nextIdValue := (nextIdValue s + 1) mod 1000\<rparr>
      in (padStart0 3 (string_of_nat i), s'))"

text \<open>
  \<open>processQueue\<close> up to its \<open>await\<close>: the call of \<open>sendCommand\<close> is made, its
  completion is the later event \<open>SendDone\<close>.
\<close>

definition processQueue :: "bus \<Rightarrow> bus" where
  "processQueue s =
     (if current s \<noteq> None then s
      else case queue s of
        [] \<Rightarrow> s
      | next # rest \<Rightarrow>
          s\<lparr>queue := rest, current := Some next,
            sends := sends s @ [next], awaiting := awaiting s @ [uid next]\<rparr>)"

definition request :: "bus \<Rightarrow> (string \<times> json) list \<Rightarrow> nat option \<Rightarrow> bus" where
  "request s pl t =
     (let (packetId, s1) =
            (if nullish (js_get (JObj pl) ''id'')
             then (let (i, s') = nextRequestId s in (JStr i, s'))
             else (the (js_get (JObj pl) ''id''), s));
          packet = obj_set pl ''id'' packetId;
          p = \<lparr>uid = nextUid s1, pid = packetId, payload = packet,
               timeoutMs = (case t of None \<Rightarrow> 500 | Some ms \<Rightarrow> ms)\<rparr>
      in processQueue (s1\<lparr>queue := queue s1 @ [p], nextUid := nextUid s1 + 1\<rparr>))"

definition resolveCurrent :: "bus \<Rightarrow> string option \<Rightarrow> json option \<Rightarrow> bus" where
  "resolveCurrent s err result =
     (case current s of
        None \<Rightarrow> s
      | Some c \<Rightarrow>
          processQueue
            (s\<lparr>armed := removeAll (uid c) (armed s),
               current := None,
               settled := settled s @
                 [(uid c, case err of Some e \<Rightarrow> Rejected e | None \<Rightarrow> Resolved result)]\<rparr>))"

definition normalizeId :: "json option \<Rightarrow> string option" where
  "normalizeId v =
     (if nullish v then None
      else let str = js_trim (js_String (the v))
           in if str = [] then None else Some (strip_leading_zeros str))"

definition show_id :: "string option \<Rightarrow> string" where
  "show_id v = (case v of None \<Rightarrow> ''null'' | Some s \<Rightarrow> s)"

definition reply_field :: "json \<Rightarrow> json option" where
  "reply_field msg =
     coalesce (js_get msg ''replyTo'')
       (coalesce (js_get msg ''id'')
          (coalesce (js_get msg ''reply_to'') (js_get msg ''responseTo'')))"

definition handleMessage :: "bus \<Rightarrow> json \<Rightarrow> bus" where
  "handleMessage s message =
     (if current s = None \<or> \<not> truthy message \<or> js_typeof message \<noteq> ''object'' then s
      else case normalizeId (reply_field message) of
        None \<Rightarrow> s
      | Some replyTo \<Rightarrow>
          (let expected = normalizeId (Some (pid (the (current s))))
           in if Some replyTo \<noteq> expected
              then s\<lparr>warnings := warnings s @
                     [''[Bus] Received reply for id='' @ replyTo @ '', expected '' @
                      show_id expected]\<rparr>
              else resolveCurrent s None (Some message)))"

definition timeout_error :: "pending \<Rightarrow> string" where
  "timeout_error c =
     ''RS485 request '' @ js_String (pid c) @ '' timed out after '' @
     string_of_nat (timeoutMs c) @ ''ms''"

definition handleTimeout :: "bus \<Rightarrow> bus" where
  "handleTimeout s =
     (case current s of
        None \<Rightarrow> s
      | Some c \<Rightarrow> resolveCurrent s (Some (timeout_error c)) None)"

text \<open>
  The continuation of \<open>processQueue\<close> after its \<open>await\<close>, for the request \<open>u\<close> it
  holds in \<open>next\<close>: \<open>sendCommand\<close> returned (the timer is set on \<open>next\<close>) or threw
  (\<open>resolveCurrent(err, undefined)\<close>).
\<close>

definition sendDone :: "bus \<Rightarrow> nat \<Rightarrow> string option \<Rightarrow> bus" where
  "sendDone s u r =
     (if u \<notin> set (awaiting s) then s
      else let s1 = s\<lparr>awaiting := removeAll u (awaiting s)\<rparr>
           in case r of
                None \<Rightarrow> s1\<lparr>armed := armed s1 @ [u]\<rparr>
              | Some e \<Rightarrow> resolveCurrent s1 (Some e) None)"

text \<open>The callback of the timer set for request \<open>u\<close>.\<close>

definition timerFire :: "bus \<Rightarrow> nat \<Rightarrow> bus" where
  "timerFire s u =
     (if u \<notin> set (armed s) then s
      else handleTimeout (s\<lparr>armed := removeAll u (armed s)\<rparr>))"

text \<open>
  What the event loop can run next: a caller's \<open>request\<close>, a \<open>message\<close> event of the
  transport (heard once \<open>init\<close> has subscribed), the end of a \<open>sendCommand\<close>, a timer.
\<close>

datatype event =
  Request "(string \<times> json) list" "nat option"
| Message json
| SendDone nat "string option"
| TimerFire nat

fun step :: "bus \<Rightarrow> event \<Rightarrow> bus" where
  "step s (Request pl t) = request s pl t"
| "step s (Message m) = (if initialized s then handleMessage s m else s)"
| "step s (SendDone u r) = sendDone s u r"
| "step s (TimerFire u) = timerFire s u"

definition run :: "bus \<Rightarrow> event list \<Rightarrow> bus" where
  "run s evs = foldl step s evs"

text \<open>
  Every request ever created, in the order the calls of \<open>sendCommand\<close> and the queue
  hold them: the requests already handed to the transport, then those still waiting.
\<close>

definition created :: "bus \<Rightarrow> pending list" where
  "created s = sends s @ queue s"

fun lacks_id :: "event \<Rightarrow> bool" where
  "lacks_id (Request pl t) = nullish (js_get (JObj pl) ''id'')"
| "lacks_id e = True"

fun is_request :: "event \<Rightarrow> bool" where
  "is_request (Request pl t) = True"
| "is_request e = False"

text \<open>
  The id the specification promises to the \<open>k\<close>-th request without an id
  (counting from 0): the three decimal digits of \<open>k mod 1000\<close>.
\<close>

definition three_digits :: "nat \<Rightarrow> string" where
  "three_digits n =
     [digit_char (n div 100 mod 10), digit_char (n div 10 mod 10), digit_char (n mod 10)]"

definition rotating_id :: "nat \<Rightarrow> json" where
  "rotating_id k = JStr (three_digits (k mod 1000))"

text \<open>
  The correlation id as the specification words it: the first of the alias fields
  that is present (neither \<open>undefined\<close> nor \<open>null\<close>), normalised.
\<close>

definition first_present_alias :: "json \<Rightarrow> json option" where
  "first_present_alias msg =
     (case List.find (\<lambda>v. \<not> nullish v)
             (map (js_get msg) [''replyTo'', ''id'', ''reply_to'', ''responseTo'']) of
        None \<Rightarrow> None
      | Some v \<Rightarrow> v)"

definition extracted_id :: "json \<Rightarrow> string option" where
  "extracted_id msg = normalizeId (first_present_alias msg)"

text \<open>A message that \<open>handleMessage\<close> takes as the reply to the current request.\<close>

definition is_reply_to :: "pending \<Rightarrow> json \<Rightarrow> bool" where
  "is_reply_to c m =
     (truthy m \<and> js_typeof m = ''object'' \<and> normalizeId (reply_field m) \<noteq> None \<and>
      normalizeId (reply_field m) = normalizeId (Some (pid c)))"

text \<open>
  What may run while a request waits for its reply without ending the wait: calls of
  \<open>request\<close> and messages that are not its reply. \<open>waiting_on s c s'\<close> says that in
  \<open>s'\<close> the request \<open>c\<close> is current and timers, promises and the calls made to the
  transport are those of \<open>s\<close>.
\<close>

fun benign :: "pending \<Rightarrow> event \<Rightarrow> bool" where
  "benign c (Request pl t) = True"
| "benign c (Message m) = (\<not> is_reply_to c m)"
| "benign c e = False"

definition waiting_on :: "bus \<Rightarrow> pending \<Rightarrow> bus \<Rightarrow> bool" where
  "waiting_on s c s' =
     (current s' = Some c \<and> armed s' = armed s \<and> settled s' = settled s \<and>
      sends s' = sends s \<and> awaiting s' = awaiting s)"


section \<open>RS485Handler (rs485Hanlder.ts)\<close>

datatype status = Connected | Disconnected | Fail

record rs485_options =
  delimiter :: string
  enablePin :: "nat option"
  driverEnablePin :: "nat option"
  receiverEnablePin :: "nat option"
  receiverEnableActiveLow :: bool
  turnaroundDelayMs :: nat
  autoReconnect :: bool
  reconnectIntervalMs :: nat
  logTraffic :: bool

definition DEFAULT_OPTIONS :: rs485_options where
  "DEFAULT_OPTIONS =
     \<lparr>delimiter = [CHR 0x0A], enablePin = None, driverEnablePin = Some 18,
      receiverEnablePin = Some 23, receiverEnableActiveLow = True, turnaroundDelayMs = 2,
      autoReconnect = True, reconnectIntervalMs = 5000, logTraffic = False\<rparr>"

text \<open>A \<open>Gpio\<close> output line: its number and the level last written to it.\<close>

record gpio =
  pin :: nat
  level :: nat

datatype emitted =
  EvStatus status
| EvError string
| EvTx string

text \<open>What the handler does to the world, in order.\<close>

datatype effect =
  PortOpen
| PortWrite string
| PortDrain
| PortClose
| GpioWrite string nat
| GpioUnexport string
| Sleep nat
| SetReconnectTimer nat
| Emit emitted
| Console string

text \<open>
  The fields of the class. \<open>port\<close> is \<open>None\<close> when there is no \<open>SerialPort\<close> object
  and \<open>Some isOpen\<close> otherwise; \<open>reconnectTimer\<close> says whether the timer is set.
  \<open>error_listener\<close> is the state the class inherits from \<open>EventEmitter\<close>, as far as
  it matters: whether a listener for \<open>error\<close> events is registered (one that returns
  normally, as those of the daemon do).
\<close>

record handler =
  error_listener :: bool
  port :: "bool option"
  parser :: bool
  legacyEnableGpio :: "gpio option"
  driverEnableGpio :: "gpio option"
  receiverEnableGpio :: "gpio option"
  reconnectTimer :: bool
  destroyed :: bool
  link :: status
  options :: rs485_options
  trace :: "effect list"

text \<open>
  What the serial port and the GPIO lines answer during one call: the error of
  \<open>port.open\<close>, of \<open>port.write\<close>, of \<open>port.drain\<close> (\<open>None\<close> for success) and
  of \<open>port.close\<close>, and whether \<open>writeSync(level)\<close> or \<open>unexport()\<close> on the line
  with a given label throws. A method is run
  from its call to its return; other handlers running at its \<open>await\<close>s are not part
  of this model.
\<close>

record io =
  open_err :: "string option"
  write_err :: "string option"
  drain_err :: "string option"
  close_err :: "string option"
  gpio_throws :: "string \<Rightarrow> nat \<Rightarrow> bool"
  unexport_throws :: "string \<Rightarrow> bool"

datatype payload_arg = PBuffer string | PString string

fun payload_bytes :: "payload_arg \<Rightarrow> string" where
  "payload_bytes (PBuffer b) = b"
| "payload_bytes (PString s) = s"

definition effects :: "handler \<Rightarrow> effect list \<Rightarrow> handler" where
  "effects h es = h\<lparr>trace := trace h @ es\<rparr>"

text \<open>\<open>handler.on("error", listener)\<close>.\<close>

definition on_error :: "handler \<Rightarrow> handler" where
  "on_error h = h\<lparr>error_listener := True\<rparr>"

text \<open>
  \<open>this.emit("error", err)\<close>: the listeners run; with no listener registered
  \<open>EventEmitter\<close> throws \<open>err\<close> itself.
\<close>

definition emit_error :: "handler \<Rightarrow> string \<Rightarrow> (string + unit) \<times> handler" where
  "emit_error h e =
     (if error_listener h then (Inr (), effects h [Emit (EvError e)]) else (Inl e, h))"

definition setStatus :: "handler \<Rightarrow> status \<Rightarrow> string option \<Rightarrow> (string + unit) \<times> handler" where
  "setStatus h st err =
     (if link h = st \<and> err = None then (Inr (), h)
      else let h1 = effects (h\<lparr>link := st\<rparr>) [Emit (EvStatus st)]
           in case err of
                None \<Rightarrow> (Inr (), h1)
              | Some e \<Rightarrow> emit_error h1 e)"

definition scheduleReconnect :: "handler \<Rightarrow> handler" where
  "scheduleReconnect h =
     (if destroyed h \<or> \<not> autoReconnect (options h) then h
      else if reconnectTimer h then h
      else effects (h\<lparr>reconnectTimer := True\<rparr>)
             [SetReconnectTimer (reconnectIntervalMs (options h))])"

definition attachSerialListeners :: "handler \<Rightarrow> handler" where
  "attachSerialListeners h =
     (if port h = None then h else h\<lparr>parser := (delimiter (options h) \<noteq> [])\<rparr>)"

definition openPort :: "io \<Rightarrow> handler \<Rightarrow> (string + unit) \<times> handler" where
  "openPort w h =
     (if port h = Some True then (Inr (), h)
      else let h1 = effects (h\<lparr>port := Some False\<rparr>) [PortOpen]
           in case open_err w of
                Some e \<Rightarrow>
                  (case setStatus h1 Fail (Some e) of
                     (Inl x, h2) \<Rightarrow> (Inl x, h2)
                   | (Inr u, h2) \<Rightarrow> (Inl e, scheduleReconnect h2))
              | None \<Rightarrow>
                  setStatus (attachSerialListeners (h1\<lparr>port := Some True\<rparr>)) Connected None)"

text \<open>
  The callback of the reconnect timer. Nothing awaits the promise it builds: a result
  \<open>Inl\<close> is a rejection that nobody handles.
\<close>

definition reconnect_fire :: "io \<Rightarrow> handler \<Rightarrow> (string + unit) \<times> handler" where
  "reconnect_fire w h =
     (case openPort w (h\<lparr>reconnectTimer := False\<rparr>) of
        (Inl e, h') \<Rightarrow> emit_error h' e
      | (Inr u, h') \<Rightarrow> (Inr (), h'))"

definition ensurePortReady :: "io \<Rightarrow> handler \<Rightarrow> (string + unit) \<times> handler" where
  "ensurePortReady w h = (if port h = Some True then (Inr (), h) else openPort w h)"

text \<open>The local function \<open>toggle\<close> of \<open>driveTransceiver\<close>.\<close>

definition toggle :: "io \<Rightarrow> gpio option \<Rightarrow> nat \<Rightarrow> string \<Rightarrow> gpio option \<times> effect list" where
  "toggle w g lvl label =
     (case g of
        None \<Rightarrow> (None, [])
      | Some p \<Rightarrow>
          if gpio_throws w label lvl
          then (Some p, [Console (''[RS485] Failed to toggle '' @ label @ '' pin'')])
          else (Some (p\<lparr>level := lvl\<rparr>), [GpioWrite label lvl]))"

definition activeLevel :: "handler \<Rightarrow> nat" where
  "activeLevel h = (if receiverEnableActiveLow (options h) then 0 else 1)"

definition driveTransceiver :: "io \<Rightarrow> bool \<Rightarrow> handler \<Rightarrow> handler" where
  "driveTransceiver w transmit h =
     (let h1 =
            (if driverEnableGpio h \<noteq> None then
               (let (g, es) = toggle w (driverEnableGpio h) (if transmit then 1 else 0) ''DE''
                in effects (h\<lparr>driverEnableGpio := g\<rparr>) es)
             else if legacyEnableGpio h \<noteq> None then
               (let (g, es) = toggle w (legacyEnableGpio h) (if transmit then 1 else 0) ''DE/RE''
                in effects (h\<lparr>legacyEnableGpio := g\<rparr>) es)
             else h)
      in if receiverEnableGpio h1 \<noteq> None then
           (let inactiveLevel = (if activeLevel h1 = 1 then 0 else 1);
                lvl = (if transmit then inactiveLevel else activeLevel h1);
                (g, es) = toggle w (receiverEnableGpio h1) lvl ''RE''
            in effects (h1\<lparr>receiverEnableGpio := g\<rparr>) es)
         else h1)"

text \<open>\<open>buffer.toString("hex")\<close>.\<close>

definition to_hex :: "string \<Rightarrow> string" where
  "to_hex b = concat (map (\<lambda>c. [hex_char (of_char c div 16), hex_char (of_char c mod 16)]) b)"

text \<open>The body of the \<open>try\<close> block of \<open>sendRaw\<close>.\<close>

definition write_and_drain :: "io \<Rightarrow> string \<Rightarrow> handler \<Rightarrow> (string + unit) \<times> handler" where
  "write_and_drain w buffer h =
     (case write_err w of
        Some e \<Rightarrow> (Inl e, effects h [PortWrite buffer])
      | None \<Rightarrow>
          (case drain_err w of
             Some e \<Rightarrow> (Inl e, effects h [PortWrite buffer, PortDrain])
           | None \<Rightarrow> (Inr (), effects h [PortWrite buffer, PortDrain, Emit (EvTx buffer)])))"

definition sendRaw :: "io \<Rightarrow> payload_arg \<Rightarrow> handler \<Rightarrow> (string + unit) \<times> handler" where
  "sendRaw w pl h =
     (if payload_bytes pl = [] then (Inr (), h)
      else case ensurePortReady w h of
        (Inl e, h1) \<Rightarrow> (Inl e, h1)
      | (Inr u, h1) \<Rightarrow>
          (let buffer = payload_bytes pl;
               h2 = (if logTraffic (options h1)
                     then effects h1 [Console (''[RS485] => '' @ to_hex buffer)] else h1);
               h3 = driveTransceiver w True h2;
               (r, h4) = write_and_drain w buffer h3;
               h5 = driveTransceiver w False h4;
               h6 = (if turnaroundDelayMs (options h5) > 0
                     then effects h5 [Sleep (turnaroundDelayMs (options h5))] else h5)
           in (r, h6)))"

definition sendCommand :: "io \<Rightarrow> (string \<times> json) list \<Rightarrow> handler \<Rightarrow> (string + unit) \<times> handler" where
  "sendCommand w command h =
     (let serialized = stringify (JObj command);
          pl = PBuffer (serialized @ delimiter (options h));
          h1 = (if logTraffic (options h)
                then effects h [Console (''[RS485] => '' @ serialized)] else h)
      in sendRaw w pl h1)"

definition clearReconnectTimer :: "handler \<Rightarrow> handler" where
  "clearReconnectTimer h = (if \<not> reconnectTimer h then h else h\<lparr>reconnectTimer := False\<rparr>)"

definition closePort :: "io \<Rightarrow> handler \<Rightarrow> (string + unit) \<times> handler" where
  "closePort w h =
     (if port h = None then (Inr (), h)
      else if port h \<noteq> Some True then (Inr (), h\<lparr>port := None\<rparr>)
      else let h1 = effects h [PortClose]
           in case (case close_err w of None \<Rightarrow> (Inr (), h1) | Some e \<Rightarrow> emit_error h1 e) of
                (Inl x, h2) \<Rightarrow> (Inl x, h2)
              | (Inr u, h2) \<Rightarrow>
                  setStatus (h2\<lparr>port := None, parser := False\<rparr>) Disconnected None)"

definition releaseGpio :: "io \<Rightarrow> gpio option \<Rightarrow> string \<Rightarrow> effect list" where
  "releaseGpio w g label =
     (case g of
        None \<Rightarrow> []
      | Some p \<Rightarrow>
          (if gpio_throws w label 0
           then [Console (''[RS485] Failed to drive '' @ label @ '' pin low during shutdown'')]
           else [GpioWrite label 0]) @
          (if unexport_throws w label
           then [Console (''[RS485] Failed to unexport '' @ label @ '' pin'')]
           else [GpioUnexport label]))"

definition destroy :: "io \<Rightarrow> handler \<Rightarrow> (string + unit) \<times> handler" where
  "destroy w h =
     (case closePort w (clearReconnectTimer (h\<lparr>destroyed := True\<rparr>)) of
        (Inl x, h1) \<Rightarrow> (Inl x, h1)
      | (Inr u, h1) \<Rightarrow>
          (let h2 = (effects h1 (releaseGpio w (legacyEnableGpio h1) ''DE/RE''))
                      \<lparr>legacyEnableGpio := None\<rparr>;
               h3 = (effects h2 (releaseGpio w (driverEnableGpio h2) ''DE''))
                      \<lparr>driverEnableGpio := None\<rparr>
           in (Inr (), (effects h3 (releaseGpio w (receiverEnableGpio h3) ''RE''))
                         \<lparr>receiverEnableGpio := None\<rparr>)))"

text \<open>
  The direction lines of a handler, and the lines as receiving leaves them: the driver
  (or the legacy line standing for it) low, the receiver at its active level.
\<close>

definition pins :: "handler \<Rightarrow> gpio option \<times> gpio option \<times> gpio option" where
  "pins h = (legacyEnableGpio h, driverEnableGpio h, receiverEnableGpio h)"

text \<open>
  Switching back to receive, as the specification describes it: one write of the low
  level to the driver line (or to the legacy line standing for it), then one write of
  the active level to the receiver line, a write that throws leaving a console line
  instead.
\<close>

definition line_write :: "io \<Rightarrow> string \<Rightarrow> nat \<Rightarrow> effect list" where
  "line_write w label lvl =
     (if gpio_throws w label lvl
      then [Console (''[RS485] Failed to toggle '' @ label @ '' pin'')]
      else [GpioWrite label lvl])"

definition receive_effects :: "io \<Rightarrow> handler \<Rightarrow> effect list" where
  "receive_effects w h =
     (if driverEnableGpio h \<noteq> None then line_write w ''DE'' 0
      else if legacyEnableGpio h \<noteq> None then line_write w ''DE/RE'' 0
      else []) @
     (if receiverEnableGpio h \<noteq> None then line_write w ''RE'' (activeLevel h) else [])"

definition line_at :: "gpio option \<Rightarrow> nat \<Rightarrow> bool" where
  "line_at g lvl = (case g of None \<Rightarrow> True | Some p \<Rightarrow> level p = lvl)"

definition receiving :: "handler \<Rightarrow> bool" where
  "receiving h =
     ((if driverEnableGpio h \<noteq> None then line_at (driverEnableGpio h) 0
       else line_at (legacyEnableGpio h) 0) \<and>
      line_at (receiverEnableGpio h) (activeLevel h))"

definition restore_works :: "io \<Rightarrow> handler \<Rightarrow> bool" where
  "restore_works w h =
     (\<not> gpio_throws w ''DE'' 0 \<and> \<not> gpio_throws w ''DE/RE'' 0 \<and>
      \<not> gpio_throws w ''RE'' (activeLevel h))"


section \<open>The remote-status monitor of the daemon\<close>

record remote_status =
  connected :: bool
  device :: "string option"
  speed :: "int option"
  lastHeartbeat :: "int option"
  connectedAt :: "int option"
  disconnectedAt :: "int option"
  reason :: "string option"

text \<open>
  \<open>RS485_STATUS\<close>, the timer of the monitor (its interval when it is set) and the
  number of calls of \<open>broadcastStatusUpdate\<close>.
\<close>

record daemon =
  rs_status :: status
  rs_error :: "string option"
  remote :: remote_status
  heartbeatMonitorTimer :: "int option"
  status_updates :: nat

definition broadcastStatusUpdate :: "daemon \<Rightarrow> daemon" where
  "broadcastStatusUpdate d = d\<lparr>status_updates := status_updates d + 1\<rparr>"

definition markRemoteDisconnected ::
  "int \<Rightarrow> string option \<Rightarrow> bool \<Rightarrow> daemon \<Rightarrow> bool \<times> daemon" where
  "markRemoteDisconnected now rsn overrideError d =
     (if \<not> connected (remote d) then
        (False, if rsn \<noteq> None \<and> rsn \<noteq> Some [] then d\<lparr>remote := (remote d)\<lparr>reason := rsn\<rparr>\<rparr> else d)
      else
        (let d1 = d\<lparr>remote := (remote d)\<lparr>connected := False, disconnectedAt := Some now,
                                              reason := rsn\<rparr>\<rparr>;
             d2 = (if rs_status d1 = Connected then d1\<lparr>rs_status := Disconnected\<rparr> else d1);
             d3 = (if (rsn \<noteq> None \<and> rsn \<noteq> Some []) \<and>
                      (overrideError \<or> rs_error d2 = None \<or> rs_error d2 = Some [])
                   then d2\<lparr>rs_error := rsn\<rparr> else d2)
         in (True, d3)))"

text \<open>The callback of \<open>setInterval\<close> in \<open>startHeartbeatMonitor\<close>, run at time \<open>now\<close>.\<close>

definition heartbeat_tick :: "int \<Rightarrow> int \<Rightarrow> daemon \<Rightarrow> daemon" where
  "heartbeat_tick timeout now d =
     (if lastHeartbeat (remote d) = None \<or> lastHeartbeat (remote d) = Some 0 then d
      else if \<not> connected (remote d) then d
      else let age = now - the (lastHeartbeat (remote d))
           in if age > timeout then
                (case markRemoteDisconnected now (Some ''Remote heartbeat timeout'') True d of
                   (True, d') \<Rightarrow> broadcastStatusUpdate d'
                 | (False, d') \<Rightarrow> d')
              else d)"

definition startHeartbeatMonitor :: "int \<Rightarrow> daemon \<Rightarrow> daemon" where
  "startHeartbeatMonitor timeout d =
     (if heartbeatMonitorTimer d \<noteq> None \<or> timeout \<le> 0 then d
      else d\<lparr>heartbeatMonitorTimer := Some (max 1000 (timeout div 2))\<rparr>)"

definition js_string_field :: "json \<Rightarrow> string \<Rightarrow> string option" where
  "js_string_field v k = (case js_get v k of Some (JStr s) \<Rightarrow> Some s | _ \<Rightarrow> None)"

definition js_number_field :: "json \<Rightarrow> string \<Rightarrow> int option" where
  "js_number_field v k = (case js_get v k of Some (JNum n) \<Rightarrow> Some n | _ \<Rightarrow> None)"

definition refresh_heartbeat :: "int \<Rightarrow> daemon \<Rightarrow> daemon" where
  "refresh_heartbeat now d =
     (d\<lparr>remote := (remote d)\<lparr>lastHeartbeat := Some now, disconnectedAt := None,
                               reason := None\<rparr>,
        rs_status := Connected, rs_error := None\<rparr>)"

definition mark_connected :: "int \<Rightarrow> daemon \<Rightarrow> daemon" where
  "mark_connected now d =
     (if \<not> connected (remote d)
      then d\<lparr>remote := (remote d)\<lparr>connected := True, connectedAt := Some now\<rparr>\<rparr> else d)"

definition handleRemotePayload :: "int \<Rightarrow> json \<Rightarrow> daemon \<Rightarrow> daemon" where
  "handleRemotePayload now pl d =
     (if \<not> truthy pl \<or> js_typeof pl \<noteq> ''object'' then d
      else case js_string_field pl ''hello'' of
        Some hello \<Rightarrow>
          (let d1 = (if device (remote d) \<noteq> Some hello
                     then d\<lparr>remote := (remote d)\<lparr>device := Some hello\<rparr>\<rparr> else d);
               d2 = (case js_number_field pl ''speed'' of
                       Some sp \<Rightarrow>
                         if speed (remote d1) \<noteq> Some sp
                         then d1\<lparr>remote := (remote d1)\<lparr>speed := Some sp\<rparr>\<rparr> else d1
                     | None \<Rightarrow> d1)
           in broadcastStatusUpdate (refresh_heartbeat now (mark_connected now d2)))
      | None \<Rightarrow>
          (case js_string_field pl ''heartbeat'' of
             Some hb \<Rightarrow>
               (let d1 = mark_connected now d;
                    d2 = (if device (remote d1) = None \<or> device (remote d1) = Some []
                          then d1\<lparr>remote := (remote d1)\<lparr>device := Some hb\<rparr>\<rparr> else d1)
                in broadcastStatusUpdate (refresh_heartbeat now d2))
           | None \<Rightarrow> d))"


section \<open>Invariants of the event loop\<close>

text \<open>
  Requests are numbered as they are created, an id handed out by the counter is the
  one of that number, and the counter is the number of requests modulo 1000. This
  holds as long as every request comes without an id.
\<close>

definition ids_inv :: "bus \<Rightarrow> bool" where
  "ids_inv s =
     (map uid (created s) = [0..<nextUid s] \<and>
      map pid (created s) = map rotating_id [0..<nextUid s] \<and>
      nextIdValue s = nextUid s mod 1000)"

text \<open>
  Requests are handed to the transport in the order they were created: the numbers of
  the requests sent, followed by those of the requests queued, count up from 0.
\<close>

definition order_inv :: "bus \<Rightarrow> bool" where
  "order_inv s = (map uid (created s) = [0..<nextUid s])"

text \<open>
  A reply is early when it is the reply to the current request and arrives while a
  \<open>sendCommand\<close> has not returned. As long as no reply is early, at most one
  \<open>sendCommand\<close> is running and at most one timer is set, both for the current
  request, and the queue is empty when nothing is current.
\<close>

fun early_reply :: "bus \<Rightarrow> event \<Rightarrow> bool" where
  "early_reply s (Message m) =
     (initialized s \<and> awaiting s \<noteq> [] \<and>
      (case current s of None \<Rightarrow> False | Some c \<Rightarrow> is_reply_to c m))"
| "early_reply s e = False"

fun no_early_reply :: "bus \<Rightarrow> event list \<Rightarrow> bool" where
  "no_early_reply s [] = True"
| "no_early_reply s (e # es) = (\<not> early_reply s e \<and> no_early_reply (step s e) es)"

definition single_flight :: "bus \<Rightarrow> bool" where
  "single_flight s =
     (case current s of
        None \<Rightarrow> queue s = [] \<and> awaiting s = [] \<and> armed s = []
      | Some c \<Rightarrow> (awaiting s = [uid c] \<and> armed s = []) \<or>
                  (awaiting s = [] \<and> armed s = [uid c]))"


section \<open>The inputs of the specification's examples\<close>

definition ping :: "(string \<times> json) list" where
  "ping = [(''cmd'', JStr ''ping'')]"

definition who :: "(string \<times> json) list" where
  "who = [(''cmd'', JStr ''who'')]"

definition pong_reply :: json where
  "pong_reply = JObj [(''replyTo'', JStr ''000''), (''pong'', JBool True)]"

definition hello_ctrl :: json where
  "hello_ctrl = JObj [(''hello'', JStr ''ctrl-1'')]"

text \<open>The handler as its constructor leaves it, and a world in which nothing fails.\<close>

definition new_handler :: "rs485_options \<Rightarrow> handler" where
  "new_handler opts =
     \<lparr>error_listener = False, port = None, parser = False, legacyEnableGpio = None, driverEnableGpio = None,
      receiverEnableGpio = None, reconnectTimer = False, destroyed = False,
      link = Disconnected, options = opts, trace = []\<rparr>"

definition io_ok :: io where
  "io_ok = \<lparr>open_err = None, write_err = None, drain_err = None, close_err = None,
            gpio_throws = (\<lambda>label lvl. False), unexport_throws = (\<lambda>label. False)\<rparr>"

text \<open>The pause after switching back to receive, when one is configured.\<close>

definition turnaround :: "handler \<Rightarrow> effect list" where
  "turnaround h =
     (if turnaroundDelayMs (options h) > 0 then [Sleep (turnaroundDelayMs (options h))] else [])"

text \<open>
  A connected handler with the default options: a listener for \<open>error\<close> registered,
  the port open, the parser attached, the two direction lines configured and at their
  receive levels. And the daemon's status at start-up.
\<close>

definition wired :: handler where
  "wired = (new_handler DEFAULT_OPTIONS)
     \<lparr>error_listener := True, port := Some True, parser := True,
      driverEnableGpio := Some \<lparr>pin = 18, level = 0\<rparr>,
      receiverEnableGpio := Some \<lparr>pin = 23, level = 0\<rparr>, link := Connected\<rparr>"

definition new_daemon :: daemon where
  "new_daemon =
     \<lparr>rs_status = Disconnected, rs_error = None,
      remote = \<lparr>connected = False, device = None, speed = None, lastHeartbeat = None,
                connectedAt = None, disconnectedAt = None, reason = None\<rparr>,
      heartbeatMonitorTimer = None, status_updates = 0\<rparr>"


section \<open>Decimal printing\<close>

lemma string_of_nat_small: "n < 10 \<Longrightarrow> string_of_nat n = [digit_char n]"
  by (simp add: string_of_nat.simps [of n])

lemma string_of_nat_two:
  assumes "10 \<le> n" and "n < 100"
  shows "string_of_nat n = [digit_char (n div 10), digit_char (n mod 10)]"
proof -
  have "n div 10 < 10" using assms by simp
  then show ?thesis
    using assms by (simp add: string_of_nat.simps [of n] string_of_nat_small)
qed

lemma string_of_nat_three:
  assumes "100 \<le> n" and "n < 1000"
  shows "string_of_nat n =
           [digit_char (n div 100), digit_char (n div 10 mod 10), digit_char (n mod 10)]"
proof -
  have a: "10 \<le> n div 10" and b: "n div 10 < 100" using assms by simp_all
  have c: "n div 10 div 10 = n div 100" by (simp add: div_mult2_eq)
  show ?thesis
    using assms a b c by (simp add: string_of_nat.simps [of n] string_of_nat_two)
qed

lemma padStart_three_digits:
  assumes "n < 1000"
  shows "padStart0 3 (string_of_nat n) = three_digits n"
proof -
  consider "n < 10" | "10 \<le> n" "n < 100" | "100 \<le> n" by linarith
  then show ?thesis
  proof cases
    case 1
    then show ?thesis
      by (simp add: string_of_nat_small padStart0_def three_digits_def digit_char_def
            numeral_2_eq_2)
  next
    case 2
    then have "n div 100 = 0" by simp
    with 2 show ?thesis
      by (simp add: string_of_nat_two padStart0_def three_digits_def digit_char_def)
  next
    case 3
    then have "n div 100 < 10" using assms by simp
    with 3 assms show ?thesis
      by (simp add: string_of_nat_three padStart0_def three_digits_def)
  qed
qed


section \<open>The rotating request ids\<close>

lemma created_processQueue: "created (processQueue s) = created s"
  by (simp add: processQueue_def created_def split: list.splits)

lemma nextUid_processQueue: "nextUid (processQueue s) = nextUid s"
  by (simp add: processQueue_def split: list.splits)

lemma nextIdValue_processQueue: "nextIdValue (processQueue s) = nextIdValue s"
  by (simp add: processQueue_def split: list.splits)

lemma ids_inv_processQueue: "ids_inv (processQueue s) = ids_inv s"
  by (simp add: ids_inv_def created_processQueue nextUid_processQueue nextIdValue_processQueue)

lemma ids_inv_resolveCurrent: "ids_inv (resolveCurrent s e r) = ids_inv s"
  by (simp add: resolveCurrent_def ids_inv_processQueue split: option.splits)
     (simp add: ids_inv_def created_def)

lemma ids_inv_handleMessage: "ids_inv (handleMessage s m) = ids_inv s"
  by (simp add: handleMessage_def ids_inv_resolveCurrent Let_def split: option.splits)
     (simp add: ids_inv_def created_def)

lemma ids_inv_sendDone: "ids_inv (sendDone s u r) = ids_inv s"
  by (simp add: sendDone_def ids_inv_resolveCurrent Let_def split: option.splits)
     (simp add: ids_inv_def created_def)

lemma ids_inv_timerFire: "ids_inv (timerFire s u) = ids_inv s"
  by (simp add: timerFire_def handleTimeout_def ids_inv_resolveCurrent split: option.splits)
     (simp add: ids_inv_def created_def)

lemma ids_inv_request:
  assumes "ids_inv s" and "nullish (js_get (JObj pl) ''id'')"
  shows "ids_inv (request s pl t)"
  using assms
  by (simp add: request_def nextRequestId_def Let_def ids_inv_processQueue)
     (simp add: ids_inv_def created_def rotating_id_def mod_Suc padStart_three_digits)

lemma ids_inv_step: "ids_inv s \<Longrightarrow> lacks_id e \<Longrightarrow> ids_inv (step s e)"
  by (cases e)
     (simp_all add: ids_inv_request ids_inv_handleMessage ids_inv_sendDone ids_inv_timerFire)

lemma ids_inv_run: "ids_inv s \<Longrightarrow> list_all lacks_id evs \<Longrightarrow> ids_inv (run s evs)"
  unfolding run_def
  by (induction evs arbitrary: s) (simp_all add: ids_inv_step)

lemma nextUid_step: "nextUid (step s e) = nextUid s + (if is_request e then 1 else 0)"
  by (cases e)
     (simp_all add: request_def nextRequestId_def Let_def nextUid_processQueue sendDone_def
        timerFire_def handleTimeout_def handleMessage_def resolveCurrent_def
        split: option.splits)

lemma nextUid_run: "nextUid (run s evs) = nextUid s + length (filter is_request evs)"
  unfolding run_def
  by (induction evs arbitrary: s) (simp_all add: nextUid_step)

lemma ids_inv_init: "ids_inv (init new_bus)"
  by (simp add: ids_inv_def init_def new_bus_def created_def)

text \<open>
  C6. Whatever else the event loop runs in between (messages, ends of transmissions,
  timers), when every call of \<open>request\<close> on an initialised manager comes without an
  id, the requests created carry, in the order of the calls, the ids
  \<open>000\<close>, \<open>001\<close>, ..., \<open>999\<close>, \<open>000\<close>, ...: the \<open>k\<close>-th one (from 0) the three decimal
  digits of \<open>k mod 1000\<close>.
\<close>

theorem assigned_ids_rotate:
  assumes "list_all lacks_id evs"
  shows "map pid (created (run (init new_bus) evs)) =
           map rotating_id [0..<length (filter is_request evs)]"
proof -
  have "ids_inv (run (init new_bus) evs)"
    using assms by (simp add: ids_inv_run ids_inv_init)
  moreover have "nextUid (run (init new_bus) evs) = length (filter is_request evs)"
    by (simp add: nextUid_run init_def new_bus_def)
  ultimately show ?thesis by (simp add: ids_inv_def)
qed

theorem assigned_ids_rotate_witness:
  "list_all lacks_id
     [Request [(''cmd'', JStr ''ping'')] None, Message (JObj [(''replyTo'', JStr ''7'')]),
      Request [(''cmd'', JStr ''who''), (''id'', JNull)] (Some 100),
      Request [(''cmd'', JStr ''ping'')] None] \<and>
   map pid (created (run (init new_bus)
     [Request [(''cmd'', JStr ''ping'')] None, Message (JObj [(''replyTo'', JStr ''7'')]),
      Request [(''cmd'', JStr ''who''), (''id'', JNull)] (Some 100),
      Request [(''cmd'', JStr ''ping'')] None])) =
     [JStr ''000'', JStr ''001'', JStr ''002'']"
  using assigned_ids_rotate [of
     "[Request [(''cmd'', JStr ''ping'')] None, Message (JObj [(''replyTo'', JStr ''7'')]),
      Request [(''cmd'', JStr ''who''), (''id'', JNull)] (Some 100),
      Request [(''cmd'', JStr ''ping'')] None]"]
  by (simp add: nullish_def rotating_id_def three_digits_def digit_char_def upt_rec)

lemma rotating_id_wraps:
  "rotating_id 999 = JStr ''999'' \<and> rotating_id 1000 = JStr ''000'' \<and>
   rotating_id 1001 = JStr ''001''"
  by (simp add: rotating_id_def three_digits_def digit_char_def)

section \<open>Reply correlation in \<open>handleMessage\<close>\<close>

lemma normalizeId_nullish: "nullish v \<Longrightarrow> normalizeId v = None"
  by (simp add: normalizeId_def)

lemma nullish_None: "nullish None"
  by (simp add: nullish_def)

lemma reply_field_extracted: "normalizeId (reply_field m) = extracted_id m"
  by (simp add: reply_field_def extracted_id_def first_present_alias_def coalesce_def
        normalizeId_nullish nullish_None)

lemma handleMessage_no_current: "current s = None \<Longrightarrow> handleMessage s m = s"
  by (simp add: handleMessage_def)

lemma handleMessage_no_id: "extracted_id m = None \<Longrightarrow> handleMessage s m = s"
  by (simp add: handleMessage_def reply_field_extracted)

lemma handleMessage_mismatch:
  assumes "current s = Some c" and "extracted_id m \<noteq> normalizeId (Some (pid c))"
  shows "\<exists>w. handleMessage s m = s\<lparr>warnings := w\<rparr>"
proof (cases "truthy m \<and> js_typeof m = ''object'' \<and> extracted_id m \<noteq> None")
  case True
  then obtain r where r: "extracted_id m = Some r" by auto
  with True assms have "handleMessage s m =
      s\<lparr>warnings := warnings s @
         [''[Bus] Received reply for id='' @ r @ '', expected '' @
          show_id (normalizeId (Some (pid c)))]\<rparr>"
    by (simp add: handleMessage_def reply_field_extracted Let_def)
  then show ?thesis by blast
next
  case False
  then have "handleMessage s m = s"
    by (auto simp add: handleMessage_def reply_field_extracted)
  then have "handleMessage s m = s\<lparr>warnings := warnings s\<rparr>" by simp
  then show ?thesis by blast
qed

lemma handleMessage_match:
  assumes "current s = Some c" and "is_reply_to c m"
  shows "handleMessage s m = resolveCurrent s None (Some m)"
  using assms
  by (auto simp add: handleMessage_def is_reply_to_def Let_def split: option.splits)

lemma settled_processQueue: "settled (processQueue s) = settled s"
  by (simp add: processQueue_def split: list.splits)

lemma settled_resolveCurrent:
  "current s = Some c \<Longrightarrow>
   settled (resolveCurrent s e r) =
     settled s @ [(uid c, case e of Some x \<Rightarrow> Rejected x | None \<Rightarrow> Resolved r)]"
  by (simp add: resolveCurrent_def settled_processQueue)

lemma js_get_Some_object: "js_get m k = Some v \<Longrightarrow> truthy m \<and> js_typeof m = ''object''"
  by (cases m) simp_all

lemma reply_field_replyTo:
  "js_get m ''replyTo'' = Some v \<Longrightarrow> v \<noteq> JNull \<Longrightarrow> reply_field m = Some v"
  by (simp add: reply_field_def coalesce_def nullish_def)

lemma nonreply_ignored:
  assumes "current s = Some c" and "\<not> is_reply_to c m"
  shows "\<exists>w. handleMessage s m = s\<lparr>warnings := w\<rparr>"
proof (cases "extracted_id m = normalizeId (Some (pid c))")
  case False
  then show ?thesis using assms(1) by (rule handleMessage_mismatch [rotated])
next
  case True
  with assms(2) have "\<not> truthy m \<or> js_typeof m \<noteq> ''object'' \<or> extracted_id m = None"
    by (auto simp add: is_reply_to_def reply_field_extracted)
  then have "handleMessage s m = s"
    by (auto simp add: handleMessage_def reply_field_extracted)
  then have "handleMessage s m = s\<lparr>warnings := warnings s\<rparr>" by simp
  then show ?thesis by blast
qed

lemma run_Cons: "run s (e # es) = run (step s e) es"
  by (simp add: run_def)


section \<open>Stripping leading zeros in \<open>normalizeId\<close>\<close>

lemma takeWhile_zero_nth:
  assumes "k < length (takeWhile is_zero_char s)"
  shows "k < length s \<and> s ! k = CHR ''0''"
proof -
  have "takeWhile is_zero_char s ! k \<in> set (takeWhile is_zero_char s)" using assms by (rule nth_mem)
  then have "takeWhile is_zero_char s ! k = CHR ''0''" by (rule set_takeWhileD [THEN conjunct2])
  moreover have "takeWhile is_zero_char s ! k = s ! k" using assms by (rule takeWhile_nth)
  moreover have "k < length s" using assms length_takeWhile_le [of is_zero_char s] by simp
  ultimately show ?thesis by simp
qed

lemma zeros_match_inside:
  assumes "Suc j < length (takeWhile is_zero_char s)"
  shows "zeros_match s (Suc j) = Some (Suc j)"
proof -
  have "Suc j < length s" and "s ! Suc j = CHR ''0''"
    using takeWhile_zero_nth [OF assms] by simp_all
  moreover have "is_digit (CHR ''0'')" by (simp add: is_digit_def)
  ultimately show ?thesis by simp
qed

lemma strip_leading_zeros_eq:
  "strip_leading_zeros s =
     (let z = length (takeWhile is_zero_char s); rest = drop z s
      in if z = 0 then s
         else if rest \<noteq> [] \<and> is_digit (hd rest) then rest
         else CHR ''0'' # rest)"
  (is "_ = ?rhs")
proof (cases "length (takeWhile is_zero_char s)")
  case 0
  then show ?thesis by (simp add: strip_leading_zeros_def)
next
  case (Suc j)
  let ?z = "Suc j"
  have zle: "?z \<le> length s" using Suc length_takeWhile_le [of is_zero_char s] by simp
  have lhs: "strip_leading_zeros s =
               (case zeros_match s ?z of None \<Rightarrow> s | Some k \<Rightarrow> drop k s)"
    using Suc by (simp add: strip_leading_zeros_def)
  have hd_rest: "drop ?z s \<noteq> [] \<Longrightarrow> hd (drop ?z s) = s ! ?z"
    by (simp add: hd_drop_conv_nth)
  show ?thesis
  proof (cases "drop ?z s \<noteq> [] \<and> is_digit (hd (drop ?z s))")
    case True
    then have "?z < length s" and "is_digit (s ! ?z)" using hd_rest by auto
    then have "zeros_match s ?z = Some ?z" by simp
    moreover have "?rhs = drop ?z s" using Suc True by (simp add: Let_def)
    ultimately show ?thesis using lhs by simp
  next
    case False
    then have "\<not> (?z < length s \<and> is_digit (s ! ?z))" using hd_rest by auto
    then have fallback: "zeros_match s ?z = zeros_match s j" by auto
    have rhs: "?rhs = CHR ''0'' # drop ?z s" using Suc False by (simp add: Let_def)
    have sj: "s ! j = CHR ''0''"
      using Suc takeWhile_zero_nth [of j s] by simp
    have "drop j s = s ! j # drop ?z s"
      using zle by (intro Cons_nth_drop_Suc [symmetric]) simp
    then have dj: "drop j s = CHR ''0'' # drop ?z s"
      using sj by simp
    show ?thesis
    proof (cases j)
      case 0
      then have "strip_leading_zeros s = s" using lhs fallback by simp
      moreover have "s = CHR ''0'' # drop ?z s" using dj 0 by simp
      ultimately show ?thesis using rhs by simp
    next
      case (Suc i)
      then have "zeros_match s j = Some j"
        using zeros_match_inside [of i s] \<open>length (takeWhile is_zero_char s) = Suc j\<close> by simp
      then have "strip_leading_zeros s = drop j s" using lhs fallback by simp
      then show ?thesis using rhs dj by simp
    qed
  qed
qed

lemma strip_leading_zeros_padded:
  assumes "ds \<noteq> []" and "list_all is_digit ds"
  shows "strip_leading_zeros (replicate n (CHR ''0'') @ ds) = strip_leading_zeros ds"
proof -
  let ?s = "replicate n (CHR ''0'') @ ds"
  have tw: "takeWhile is_zero_char ?s = replicate n (CHR ''0'') @ takeWhile is_zero_char ds"
    by (induction n) simp_all
  have dr: "drop (length (takeWhile is_zero_char ?s)) ?s = drop (length (takeWhile is_zero_char ds)) ds"
    by (simp add: tw)
  let ?rest = "drop (length (takeWhile is_zero_char ds)) ds"
  have rest: "?rest = dropWhile is_zero_char ds" by (simp add: dropWhile_eq_drop)
  show ?thesis
  proof (cases "length (takeWhile is_zero_char ds)")
    case 0
    then have "ds = ?rest" by simp
    moreover have "is_digit (hd ds)" using assms by (cases ds) simp_all
    ultimately show ?thesis
      using 0 assms(1) dr tw
      by (simp add: strip_leading_zeros_eq [of ?s] strip_leading_zeros_eq [of ds] Let_def)
  next
    case (Suc j)
    then show ?thesis
      using dr tw
      by (simp add: strip_leading_zeros_eq [of ?s] strip_leading_zeros_eq [of ds] Let_def)
  qed
qed

lemma digits_no_space: "is_digit c \<Longrightarrow> \<not> is_space c"
  by (auto simp add: is_digit_def is_space_def)

lemma js_trim_digits:
  assumes "ds \<noteq> []" and "list_all is_digit ds"
  shows "js_trim ds = ds"
proof -
  have a: "\<not> is_space (hd ds)" using assms digits_no_space by (cases ds) auto
  have b: "\<not> is_space (last ds)"
    using assms digits_no_space by (metis last_in_set list_all_iff)
  have "dropWhile is_space ds = ds" using a assms(1) by (cases ds) auto
  moreover have "dropWhile is_space (rev ds) = rev ds"
    using b assms(1) by (cases "rev ds") (auto simp add: last_rev hd_rev [symmetric])
  ultimately show ?thesis by (simp add: js_trim_def)
qed

lemma normalizeId_JStr:
  "normalizeId (Some (JStr x)) =
     (if js_trim x = [] then None else Some (strip_leading_zeros (js_trim x)))"
  by (simp add: normalizeId_def nullish_def Let_def)

lemma normalizeId_padded:
  assumes "ds \<noteq> []" and "list_all is_digit ds"
  shows "normalizeId (Some (JStr (replicate n (CHR ''0'') @ ds))) = normalizeId (Some (JStr ds))"
proof -
  let ?s = "replicate n (CHR ''0'') @ ds"
  have "is_digit (CHR ''0'')" by (simp add: is_digit_def)
  then have z: "list_all is_digit ?s"
    using assms(2) by (auto simp add: list_all_iff)
  have ne: "?s \<noteq> []" using assms(1) by simp
  have t1: "js_trim ?s = ?s" using ne z by (rule js_trim_digits)
  have t2: "js_trim ds = ds" using assms by (rule js_trim_digits)
  have "strip_leading_zeros ?s = strip_leading_zeros ds"
    using assms by (rule strip_leading_zeros_padded)
  then show ?thesis
    unfolding normalizeId_JStr t1 t2 using assms(1) by simp
qed

lemma normalizeId_005: "normalizeId (Some (JStr ''005'')) = Some ''5''"
  by (simp add: normalizeId_JStr js_trim_def is_space_def strip_leading_zeros_def is_digit_def)

lemma normalizeId_5: "normalizeId (Some (JStr ''5'')) = Some ''5''"
  by (simp add: normalizeId_JStr js_trim_def is_space_def strip_leading_zeros_def is_digit_def)

lemma is_reply_005:
  assumes "pid c = JStr ''005''" and "js_get m ''replyTo'' = Some (JStr ''5'')"
  shows "is_reply_to c m"
  using assms js_get_Some_object [of m "''replyTo''" "JStr ''5''"]
  by (simp add: is_reply_to_def reply_field_replyTo normalizeId_005 normalizeId_5)


section \<open>Running the manager on given events\<close>

lemma string_of_nat_100: "string_of_nat 100 = ''100''"
  by (simp add: string_of_nat_three digit_char_def)

lemmas bus_eval =
  run_def init_def new_bus_def request_def nextRequestId_def processQueue_def
  handleMessage_def resolveCurrent_def sendDone_def timerFire_def handleTimeout_def
  timeout_error_def nullish_def obj_set_def padStart_three_digits three_digits_def
  digit_char_def Let_def ping_def who_def pong_reply_def hello_ctrl_def
  reply_field_def coalesce_def normalizeId_JStr js_trim_def is_space_def
  strip_leading_zeros_def is_digit_def show_id_def


section \<open>One request at a time\<close>

lemma order_inv_processQueue: "order_inv (processQueue s) = order_inv s"
  by (simp add: order_inv_def created_processQueue nextUid_processQueue)

lemma order_inv_resolveCurrent: "order_inv (resolveCurrent s e r) = order_inv s"
  by (simp add: resolveCurrent_def order_inv_processQueue split: option.splits)
     (simp add: order_inv_def created_def)

lemma order_inv_step: "order_inv s \<Longrightarrow> order_inv (step s e)"
proof (cases e)
  case (Request pl t)
  assume "order_inv s"
  then show ?thesis
    using Request
    by (simp add: request_def nextRequestId_def Let_def order_inv_processQueue)
       (simp add: order_inv_def created_def)
next
  case (Message m)
  assume "order_inv s"
  then show ?thesis
    using Message
    by (simp add: handleMessage_def order_inv_resolveCurrent Let_def split: option.splits)
       (simp add: order_inv_def created_def)
next
  case (SendDone u r)
  assume "order_inv s"
  then show ?thesis
    using SendDone
    by (simp add: sendDone_def order_inv_resolveCurrent Let_def split: option.splits)
       (simp add: order_inv_def created_def)
next
  case (TimerFire u)
  assume "order_inv s"
  then show ?thesis
    using TimerFire
    by (simp add: timerFire_def handleTimeout_def order_inv_resolveCurrent split: option.splits)
       (simp add: order_inv_def created_def)
qed

lemma requests_sent_in_order:
  "map uid (sends (run (init new_bus) evs) @ queue (run (init new_bus) evs)) =
     [0..<length (filter is_request evs)]"
proof -
  have "order_inv s \<Longrightarrow> order_inv (run s evs)" for s
    unfolding run_def by (induction evs arbitrary: s) (simp_all add: order_inv_step)
  moreover have "order_inv (init new_bus)"
    by (simp add: order_inv_def created_def init_def new_bus_def)
  ultimately have "order_inv (run (init new_bus) evs)" by simp
  moreover have "nextUid (run (init new_bus) evs) = length (filter is_request evs)"
    by (simp add: nextUid_run init_def new_bus_def)
  ultimately show ?thesis by (simp add: order_inv_def created_def)
qed

lemma single_flight_processQueue:
  assumes "current s = None" and "awaiting s = []" and "armed s = []"
  shows "single_flight (processQueue s)"
  using assms by (simp add: single_flight_def processQueue_def split: list.splits)

lemma single_flight_resolveCurrent:
  assumes "single_flight s" and "current s = Some c" and "awaiting s = []"
  shows "single_flight (resolveCurrent s e r)"
proof -
  let ?s = "s\<lparr>armed := removeAll (uid c) (armed s), current := None,
               settled := settled s @
                 [(uid c, case e of Some x \<Rightarrow> Rejected x | None \<Rightarrow> Resolved r)]\<rparr>"
  have "armed s = [uid c]" using assms by (simp add: single_flight_def)
  then have "current ?s = None" and "awaiting ?s = []" and "armed ?s = []"
    using assms(3) by simp_all
  then have "single_flight (processQueue ?s)" by (rule single_flight_processQueue)
  then show ?thesis using assms(2) by (simp add: resolveCurrent_def)
qed

lemma single_flight_request:
  assumes "single_flight s"
  shows "single_flight (request s pl t)"
proof (cases "current s")
  case None
  then show ?thesis
    using assms
    by (simp add: single_flight_def request_def nextRequestId_def processQueue_def Let_def
          split: prod.splits)
next
  case (Some c)
  then show ?thesis
    using assms
    by (simp add: single_flight_def request_def nextRequestId_def processQueue_def Let_def
          split: prod.splits)
qed

lemma single_flight_sendDone:
  assumes "single_flight s"
  shows "single_flight (sendDone s u r)"
proof (cases "u \<in> set (awaiting s)")
  case False
  then show ?thesis using assms by (simp add: sendDone_def)
next
  case True
  then obtain c where c: "current s = Some c" and aw: "awaiting s = [uid c]"
    and ar: "armed s = []" and u: "u = uid c"
    using assms by (auto simp add: single_flight_def split: option.splits)
  show ?thesis
  proof (cases r)
    case None
    then show ?thesis using c aw ar u by (simp add: sendDone_def single_flight_def)
  next
    case (Some e)
    let ?s1 = "s\<lparr>awaiting := removeAll u (awaiting s)\<rparr>"
    let ?s2 = "?s1\<lparr>armed := removeAll (uid c) (armed ?s1), current := None,
               settled := settled ?s1 @ [(uid c, Rejected e)]\<rparr>"
    have "current ?s2 = None" and "awaiting ?s2 = []" and "armed ?s2 = []"
      using aw ar u by simp_all
    then have "single_flight (processQueue ?s2)" by (rule single_flight_processQueue)
    then show ?thesis using Some True c by (simp add: sendDone_def resolveCurrent_def)
  qed
qed

lemma single_flight_timerFire:
  assumes "single_flight s"
  shows "single_flight (timerFire s u)"
proof (cases "u \<in> set (armed s)")
  case False
  then show ?thesis using assms by (simp add: timerFire_def)
next
  case True
  then obtain c where c: "current s = Some c" and aw: "awaiting s = []"
    and ar: "armed s = [uid c]" and u: "u = uid c"
    using assms by (auto simp add: single_flight_def split: option.splits)
  let ?s1 = "s\<lparr>armed := removeAll u (armed s)\<rparr>"
  let ?s2 = "?s1\<lparr>armed := removeAll (uid c) (armed ?s1), current := None,
             settled := settled ?s1 @ [(uid c, Rejected (timeout_error c))]\<rparr>"
  have "current ?s2 = None" and "awaiting ?s2 = []" and "armed ?s2 = []"
    using aw ar u by simp_all
  then have "single_flight (processQueue ?s2)" by (rule single_flight_processQueue)
  then show ?thesis
    using True c by (simp add: timerFire_def handleTimeout_def resolveCurrent_def)
qed

lemma single_flight_message:
  assumes "single_flight s" and "\<not> early_reply s (Message m)"
  shows "single_flight (step s (Message m))"
proof (cases "initialized s \<and> current s \<noteq> None")
  case False
  then show ?thesis using assms(1) by (auto simp add: handleMessage_def)
next
  case True
  then obtain c where c: "current s = Some c" by auto
  show ?thesis
  proof (cases "is_reply_to c m")
    case False
    then obtain w where "handleMessage s m = s\<lparr>warnings := w\<rparr>"
      using nonreply_ignored [OF c] by blast
    then show ?thesis using True assms(1) c by (simp add: single_flight_def)
  next
    case yes: True
    then have aw: "awaiting s = []" using assms(2) True c by simp
    have "handleMessage s m = resolveCurrent s None (Some m)"
      using c yes by (rule handleMessage_match)
    then show ?thesis
      using True single_flight_resolveCurrent [OF assms(1) c aw] by simp
  qed
qed

lemma single_flight_step:
  assumes "single_flight s" and "\<not> early_reply s e"
  shows "single_flight (step s e)"
proof (cases e)
  case (Request pl t)
  then show ?thesis using assms(1) by (simp add: single_flight_request)
next
  case (Message m)
  then show ?thesis using assms single_flight_message [of s m] by blast
next
  case (SendDone u r)
  then show ?thesis using assms(1) by (simp add: single_flight_sendDone)
next
  case (TimerFire u)
  then show ?thesis using assms(1) by (simp add: single_flight_timerFire)
qed

lemma single_flight_run:
  assumes "single_flight s" and "no_early_reply s evs"
  shows "single_flight (run s evs)"
  using assms
  by (induction evs arbitrary: s) (simp_all add: run_def single_flight_step)

lemma one_transmission_without_early_reply:
  assumes "no_early_reply (init new_bus) evs"
  shows "length (awaiting (run (init new_bus) evs)) \<le> 1"
proof -
  have "single_flight (init new_bus)"
    by (simp add: single_flight_def init_def new_bus_def)
  then have "single_flight (run (init new_bus) evs)"
    using assms by (rule single_flight_run)
  then show ?thesis
    by (auto simp add: single_flight_def split: option.splits)
qed


text \<open>
  C1. The claim: at most one request is current, requests are served first in first
  out, and exactly one transmission is in flight at a time, also while \<open>processQueue\<close>
  is suspended in \<open>await transport.sendCommand\<close>. The first two parts hold
  (\<open>current\<close> is one optional field, and \<open>requests_sent_in_order\<close>). The third holds
  as long as no reply is early (\<open>one_transmission_without_early_reply\<close>) and not
  otherwise: a matching reply handled while the \<open>sendCommand\<close> of the current request has
  not returned clears \<open>current\<close>, and \<open>processQueue\<close> calls \<open>sendCommand\<close> for the
  next request, so two calls are in flight. The first one then sets its timer on a
  request that is already settled; nothing clears that timer, and when it fires
  \<open>handleTimeout\<close> rejects whichever request is current: here request \<open>001\<close>, whose
  own timer has not fired.
\<close>

theorem reply_during_send_overlaps_transmissions:
  "awaiting (run (init new_bus) [Request ping None, Request who None, Message pong_reply]) = [0, 1] \<and>
   map uid (sends (run (init new_bus) [Request ping None, Request who None, Message pong_reply])) = [0, 1] \<and>
   settled (run (init new_bus)
       [Request ping None, Request who (Some 100), Message pong_reply,
        SendDone 0 None, SendDone 1 None, TimerFire 0]) =
     [(0, Resolved (Some pong_reply)),
      (1, Rejected ''RS485 request 001 timed out after 100ms'')]"
  by (simp add: bus_eval string_of_nat_100)


section \<open>Round trip\<close>

text \<open>
  C3. On a fresh, initialised manager the first \<open>request({cmd:"ping"})\<close> hands the
  transport the packet \<open>{cmd:"ping", id:"000"}\<close>; \<open>sendCommand\<close> on a fresh handler
  with the default options writes exactly the line \<open>{"cmd":"ping","id":"000"}\<close>
  followed by the newline; and the message \<open>{"replyTo":"000","pong":true}\<close> received
  afterwards resolves the promise of that request with the whole message.
\<close>

theorem ping_round_trip:
  \<open>map payload (sends (request (init new_bus) ping None)) =
     [[(''cmd'', JStr ''ping''), (''id'', JStr ''000'')]] \<and>
   fst (sendCommand io_ok [(''cmd'', JStr ''ping''), (''id'', JStr ''000'')]
           (new_handler DEFAULT_OPTIONS)) = Inr () \<and>
   trace (snd (sendCommand io_ok [(''cmd'', JStr ''ping''), (''id'', JStr ''000'')]
           (new_handler DEFAULT_OPTIONS))) =
     [PortOpen, Emit (EvStatus Connected),
      PortWrite (''{"cmd":"ping","id":"000"}'' @ [CHR 0x0A]), PortDrain,
      Emit (EvTx (''{"cmd":"ping","id":"000"}'' @ [CHR 0x0A])), Sleep 2] \<and>
   settled (run (init new_bus) [Request ping None, SendDone 0 None, Message pong_reply]) =
     [(0, Resolved (Some pong_reply))]\<close>
  by (simp add: bus_eval sendCommand_def sendRaw_def ensurePortReady_def openPort_def
       new_handler_def DEFAULT_OPTIONS_def io_ok_def effects_def setStatus_def
       attachSerialListeners_def driveTransceiver_def write_and_drain_def json_quote_def
       json_escape_def)


section \<open>Messages that are not the awaited reply\<close>

text \<open>
  C4. A message handled while no request is current leaves the manager as it was, so
  nothing of it is there for a later request. Otherwise the id \<open>handleMessage\<close>
  compares is the normalised first present one of \<open>replyTo\<close>, \<open>id\<close>, \<open>reply_to\<close>,
  \<open>responseTo\<close>; a message that yields no id leaves the manager as it was; and one
  whose normalised id differs from the normalised id of the current request changes
  nothing but the lines of \<open>console.warn\<close>: queue, current request, timers and
  promises are untouched.
\<close>

theorem unmatched_messages_dropped:
  "(current s = None \<longrightarrow> handleMessage s m = s \<and> run s (Message m # evs) = run s evs) \<and>
   normalizeId (reply_field m) = extracted_id m \<and>
   (extracted_id m = None \<longrightarrow> handleMessage s m = s) \<and>
   (current s = Some c \<and> extracted_id m \<noteq> normalizeId (Some (pid c)) \<longrightarrow>
      (\<exists>w. handleMessage s m = s\<lparr>warnings := w\<rparr>))"
  using handleMessage_mismatch [of s c m]
  by (simp add: handleMessage_no_current handleMessage_no_id reply_field_extracted run_def)

theorem unmatched_messages_dropped_witness:
  "handleMessage (init new_bus) pong_reply = init new_bus \<and>
   run (init new_bus) [Message pong_reply, Request ping None] =
     run (init new_bus) [Request ping None] \<and>
   handleMessage (request (init new_bus) ping None) hello_ctrl =
     request (init new_bus) ping None \<and>
   (\<exists>w. handleMessage (request (init new_bus) ping None) (JObj [(''id'', JStr ''7'')]) =
          (request (init new_bus) ping None)\<lparr>warnings := w\<rparr>)"
proof -
  let ?s = "request (init new_bus) ping None"
  let ?c = "\<lparr>uid = 0, pid = JStr ''000'',
             payload = [(''cmd'', JStr ''ping''), (''id'', JStr ''000'')], timeoutMs = 500\<rparr>"
  have a: "current (init new_bus) = None" by (simp add: init_def new_bus_def)
  have b: "extracted_id hello_ctrl = None"
    by (simp add: extracted_id_def first_present_alias_def hello_ctrl_def nullish_def
          normalizeId_def)
  have c: "current ?s = Some ?c" by (simp add: bus_eval)
  have d: "extracted_id (JObj [(''id'', JStr ''7'')]) \<noteq> normalizeId (Some (pid ?c))"
    by (simp add: extracted_id_def first_present_alias_def nullish_def bus_eval)
  show ?thesis
    using unmatched_messages_dropped [of "init new_bus" pong_reply "[Request ping None]"]
      unmatched_messages_dropped [of ?s hello_ctrl]
      unmatched_messages_dropped [of ?s "JObj [(''id'', JStr ''7'')]" _ ?c]
      a b c d
    by simp
qed


section \<open>Zero-padded ids\<close>

lemma normalizeId_digits:
  assumes "ds \<noteq> []" and "list_all is_digit ds" and "hd ds \<noteq> CHR ''0''"
  shows "normalizeId (Some (JStr (replicate n (CHR ''0'') @ ds))) = Some ds"
proof -
  have "takeWhile is_zero_char ds = []" using assms(1,3) by (cases ds) simp_all
  then have "strip_leading_zeros ds = ds" by (simp add: strip_leading_zeros_eq)
  moreover have "js_trim ds = ds" using assms(1,2) by (rule js_trim_digits)
  ultimately have "normalizeId (Some (JStr ds)) = Some ds"
    using assms(1) by (simp add: normalizeId_JStr)
  then show ?thesis using normalizeId_padded [OF assms(1,2), of n] by simp
qed

lemma normalizeId_zeros:
  "normalizeId (Some (JStr (replicate (Suc n) (CHR ''0'')))) = Some ''0''"
proof -
  let ?s = "replicate (Suc n) (CHR ''0'')"
  have d: "list_all is_digit ?s" by (simp add: list_all_iff is_digit_def)
  have "?s \<noteq> []" by simp
  then have t: "js_trim ?s = ?s" using d by (rule js_trim_digits)
  have tw: "takeWhile is_zero_char ?s = ?s"
    by (rule takeWhile_eq_all_conv [THEN iffD2]) simp
  have "strip_leading_zeros ?s = ''0''"
    unfolding strip_leading_zeros_eq [of ?s] tw by (simp add: Let_def)
  then show ?thesis unfolding normalizeId_JStr t by simp
qed

lemma nonreply_not_settled:
  assumes "current s = Some c" and "\<not> is_reply_to c m"
  shows "settled (handleMessage s m) = settled s \<and> current (handleMessage s m) = Some c"
proof -
  obtain w where "handleMessage s m = s\<lparr>warnings := w\<rparr>"
    using nonreply_ignored [OF assms] by blast
  then show ?thesis using assms(1) by simp
qed

text \<open>
  C5. The ids are compared after normalising both: a message is the reply to the
  current request exactly when the two normalised ids exist and are equal; it then
  resolves that request with the message, and otherwise settles nothing. What
  normalising returns: the replacement \<open>/^0+(?=\d)/\<close> leaves a string without leading
  zeros as it is, drops all leading zeros when a digit follows them, and keeps one zero
  otherwise; so zeros put in front of a string of digits that does not start with
  \<open>0\<close> give back that string, a string of zeros gives \<open>0\<close>, and padding a string of
  digits never changes its normal form. For a current request with id \<open>005\<close> and a
  message with \<open>replyTo\<close> \<open>5\<close> both sides normalise to \<open>5\<close>: the message is a match
  and resolves the request.
\<close>

theorem zero_padded_reply_matches:
  "(current s = Some c \<and> is_reply_to c m \<longrightarrow>
      handleMessage s m = resolveCurrent s None (Some m) \<and>
      settled (handleMessage s m) = settled s @ [(uid c, Resolved (Some m))]) \<and>
   (current s = Some c \<and> \<not> is_reply_to c m \<longrightarrow>
      settled (handleMessage s m) = settled s \<and> current (handleMessage s m) = Some c) \<and>
   (ds \<noteq> [] \<and> list_all is_digit ds \<longrightarrow>
      normalizeId (Some (JStr (replicate n (CHR ''0'') @ ds))) = normalizeId (Some (JStr ds))) \<and>
   (ds \<noteq> [] \<and> list_all is_digit ds \<and> hd ds \<noteq> CHR ''0'' \<longrightarrow>
      normalizeId (Some (JStr (replicate n (CHR ''0'') @ ds))) = Some ds) \<and>
   normalizeId (Some (JStr (replicate (Suc n) (CHR ''0'')))) = Some ''0'' \<and>
   strip_leading_zeros str =
     (let z = length (takeWhile is_zero_char str); rest = drop z str
      in if z = 0 then str
         else if rest \<noteq> [] \<and> is_digit (hd rest) then rest
         else CHR ''0'' # rest) \<and>
   (current s = Some c \<and> pid c = JStr ''005'' \<and> js_get m ''replyTo'' = Some (JStr ''5'') \<longrightarrow>
      normalizeId (Some (pid c)) = Some ''5'' \<and>
      normalizeId (reply_field m) = Some ''5'' \<and>
      is_reply_to c m \<and>
      settled (handleMessage s m) = settled s @ [(uid c, Resolved (Some m))])"
proof -
  have a: "handleMessage s m = resolveCurrent s None (Some m) \<and>
      settled (handleMessage s m) = settled s @ [(uid c, Resolved (Some m))]"
    if "current s = Some c" and "is_reply_to c m"
    using that by (simp add: handleMessage_match settled_resolveCurrent)
  have b: "normalizeId (Some (pid c)) = Some ''5'' \<and> normalizeId (reply_field m) = Some ''5''"
    if "pid c = JStr ''005''" and "js_get m ''replyTo'' = Some (JStr ''5'')"
    using that by (simp add: reply_field_replyTo normalizeId_005 normalizeId_5)
  have c: "strip_leading_zeros str =
     (let z = length (takeWhile is_zero_char str); rest = drop z str
      in if z = 0 then str
         else if rest \<noteq> [] \<and> is_digit (hd rest) then rest
         else CHR ''0'' # rest)"
    by (rule strip_leading_zeros_eq)
  show ?thesis
    using a b c nonreply_not_settled [of s c m] normalizeId_padded [of ds n]
      normalizeId_digits [of ds n] normalizeId_zeros [of n] is_reply_005 [of c m]
    by blast
qed

theorem zero_padded_reply_matches_witness:
  "settled (handleMessage (request (init new_bus) [(''cmd'', JStr ''ping''), (''id'', JStr ''005'')] None)
              (JObj [(''replyTo'', JStr ''5''), (''pong'', JBool True)])) =
     [(0, Resolved (Some (JObj [(''replyTo'', JStr ''5''), (''pong'', JBool True)])))] \<and>
   settled (handleMessage (request (init new_bus) [(''cmd'', JStr ''ping''), (''id'', JStr ''005'')] None)
              (JObj [(''replyTo'', JStr ''6'')])) = [] \<and>
   normalizeId (Some (JStr ''005'')) = Some ''5'' \<and>
   normalizeId (Some (JStr ''5'')) = Some ''5'' \<and>
   normalizeId (Some (JStr ''000'')) = Some ''0'' \<and>
   normalizeId (Some (JStr (replicate 2 (CHR ''0'') @ ''5''))) = normalizeId (Some (JStr ''5''))"
proof -
  let ?s = "request (init new_bus) [(''cmd'', JStr ''ping''), (''id'', JStr ''005'')] None"
  let ?c = "\<lparr>uid = 0, pid = JStr ''005'',
             payload = [(''cmd'', JStr ''ping''), (''id'', JStr ''005'')], timeoutMs = 500\<rparr>"
  let ?m = "JObj [(''replyTo'', JStr ''5''), (''pong'', JBool True)]"
  let ?m6 = "JObj [(''replyTo'', JStr ''6'')]"
  have a: "current ?s = Some ?c" by (simp add: bus_eval)
  have b: "settled ?s = []" by (simp add: bus_eval)
  have c: "''5'' \<noteq> [] \<and> list_all is_digit ''5'' \<and> hd ''5'' \<noteq> CHR ''0''"
    by (simp add: is_digit_def)
  have p: "pid ?c = JStr ''005''" by simp
  have g: "js_get ?m ''replyTo'' = Some (JStr ''5'')" by simp
  have n6: "\<not> is_reply_to ?c ?m6" by (simp add: is_reply_to_def bus_eval)
  have r2: "replicate 2 (CHR ''0'') @ ''5'' = ''005''" by (simp add: numeral_2_eq_2)
  have r3: "replicate (Suc 2) (CHR ''0'') = ''000''" by (simp add: numeral_2_eq_2)
  note inst = zero_padded_reply_matches [of ?s ?c ?m "''5''" 2]
  from inst a p g have k: "settled (handleMessage ?s ?m) = settled ?s @ [(uid ?c, Resolved (Some ?m))]"
    by blast
  from inst c have n: "normalizeId (Some (JStr (replicate 2 (CHR ''0'') @ ''5''))) =
      normalizeId (Some (JStr ''5''))"
    and n5: "normalizeId (Some (JStr (replicate 2 (CHR ''0'') @ ''5''))) = Some ''5''"
    by blast+
  from inst have n0: "normalizeId (Some (JStr (replicate (Suc 2) (CHR ''0'')))) = Some ''0''"
    by blast
  from zero_padded_reply_matches [of ?s ?c ?m6] a n6
  have k6: "settled (handleMessage ?s ?m6) = settled ?s" by blast
  show ?thesis using k k6 n n5 n0 b r2 r3 by simp
qed


section \<open>Timeout\<close>

lemma timerFire_current:
  assumes "current s = Some c" and "u \<in> set (armed s)"
  shows "timerFire s u =
           processQueue (s\<lparr>armed := removeAll (uid c) (removeAll u (armed s)), current := None,
                            settled := settled s @ [(uid c, Rejected (timeout_error c))]\<rparr>)"
  using assms by (simp add: timerFire_def handleTimeout_def resolveCurrent_def)

lemma benign_step:
  assumes "current s = Some c" and "benign c e"
  shows "waiting_on s c (step s e)"
proof (cases e)
  case (Request pl t)
  then show ?thesis
    using assms(1)
    by (simp add: waiting_on_def request_def nextRequestId_def processQueue_def Let_def
          split: prod.splits)
next
  case (Message m)
  then have "\<not> is_reply_to c m" using assms(2) by simp
  then obtain w where "handleMessage s m = s\<lparr>warnings := w\<rparr>"
    using nonreply_ignored [OF assms(1)] by blast
  then show ?thesis using Message assms(1) by (simp add: waiting_on_def)
next
  case (SendDone u r)
  then show ?thesis using assms(2) by simp
next
  case (TimerFire u)
  then show ?thesis using assms(2) by simp
qed

lemma benign_run:
  assumes "current s = Some c" and "list_all (benign c) evs"
  shows "waiting_on s c (run s evs)"
  using assms
proof (induction evs arbitrary: s)
  case Nil
  then show ?case by (simp add: run_def waiting_on_def)
next
  case (Cons e evs)
  have a: "waiting_on s c (step s e)" using Cons.prems by (simp add: benign_step)
  then have "current (step s e) = Some c" by (simp add: waiting_on_def)
  then have "waiting_on (step s e) c (run (step s e) evs)"
    using Cons.IH Cons.prems by simp
  then show ?case using a by (simp add: waiting_on_def run_Cons)
qed

text \<open>
  What the code does at a timeout. When the timer of the current request fires, the
  promise of that request is rejected with the error
  \<open>RS485 request <id> timed out after <timeoutMs>ms\<close>, the head of the queue becomes
  the current request, and the manager makes no call to the transport other than
  \<open>sendCommand\<close> for that head. And a current request whose \<open>sendCommand\<close> returns is
  still current, with its timer set and its promise unsettled, after any calls of
  \<open>request\<close> and any messages that are not its reply.
\<close>

lemma timeout_rejects_current:
  "(current s = Some c \<and> uid c \<in> set (armed s) \<longrightarrow>
      settled (timerFire s (uid c)) = settled s @
        [(uid c, Rejected (''RS485 request '' @ js_String (pid c) @ '' timed out after '' @
                           string_of_nat (timeoutMs c) @ ''ms''))] \<and>
      current (timerFire s (uid c)) = (case queue s of [] \<Rightarrow> None | n # rest \<Rightarrow> Some n) \<and>
      queue (timerFire s (uid c)) = drop 1 (queue s) \<and>
      sends (timerFire s (uid c)) = sends s @ take 1 (queue s) \<and>
      awaiting (timerFire s (uid c)) = awaiting s @ map uid (take 1 (queue s))) \<and>
   (current s = Some c \<and> uid c \<in> set (awaiting s) \<and> list_all (benign c) evs \<longrightarrow>
      current (run s (SendDone (uid c) None # evs)) = Some c \<and>
      uid c \<in> set (armed (run s (SendDone (uid c) None # evs))) \<and>
      settled (run s (SendDone (uid c) None # evs)) = settled s \<and>
      sends (run s (SendDone (uid c) None # evs)) = sends s)"
proof -
  have fire: "settled (timerFire s (uid c)) = settled s @ [(uid c, Rejected (timeout_error c))] \<and>
      current (timerFire s (uid c)) = (case queue s of [] \<Rightarrow> None | n # rest \<Rightarrow> Some n) \<and>
      queue (timerFire s (uid c)) = drop 1 (queue s) \<and>
      sends (timerFire s (uid c)) = sends s @ take 1 (queue s) \<and>
      awaiting (timerFire s (uid c)) = awaiting s @ map uid (take 1 (queue s))"
    if "current s = Some c" and "uid c \<in> set (armed s)"
    using that by (simp add: timerFire_current processQueue_def split: list.splits)
  have kept: "current (run s (SendDone (uid c) None # evs)) = Some c \<and>
      uid c \<in> set (armed (run s (SendDone (uid c) None # evs))) \<and>
      settled (run s (SendDone (uid c) None # evs)) = settled s \<and>
      sends (run s (SendDone (uid c) None # evs)) = sends s"
    if cur: "current s = Some c" and aw: "uid c \<in> set (awaiting s)"
      and evs: "list_all (benign c) evs"
  proof -
    let ?s1 = "s\<lparr>awaiting := removeAll (uid c) (awaiting s), armed := armed s @ [uid c]\<rparr>"
    have s1: "step s (SendDone (uid c) None) = ?s1"
      using aw by (simp add: sendDone_def)
    have "current ?s1 = Some c" using cur by simp
    then have "waiting_on ?s1 c (run ?s1 evs)" using evs by (rule benign_run)
    then show ?thesis using s1 by (simp add: run_Cons waiting_on_def)
  qed
  show ?thesis
    using fire kept by (simp add: timeout_error_def)
qed

lemma timeout_rejects_current_example:
  "current (request (init new_bus) who (Some 100)) =
     Some \<lparr>uid = 0, pid = JStr ''000'',
           payload = [(''cmd'', JStr ''who''), (''id'', JStr ''000'')], timeoutMs = 100\<rparr> \<and>
   0 \<in> set (awaiting (request (init new_bus) who (Some 100))) \<and>
   list_all (benign \<lparr>uid = 0, pid = JStr ''000'',
           payload = [(''cmd'', JStr ''who''), (''id'', JStr ''000'')], timeoutMs = 100\<rparr>)
     [Message hello_ctrl, Request ping None] \<and>
   settled (run (request (init new_bus) who (Some 100))
              [SendDone 0 None, Message hello_ctrl, Request ping None, TimerFire 0]) =
     [(0, Rejected ''RS485 request 000 timed out after 100ms'')] \<and>
   map_option pid (current (run (request (init new_bus) who (Some 100))
              [SendDone 0 None, Message hello_ctrl, Request ping None, TimerFire 0])) =
     Some (JStr ''001'')"
proof -
  let ?s = "request (init new_bus) who (Some 100)"
  let ?c = "\<lparr>uid = 0, pid = JStr ''000'',
             payload = [(''cmd'', JStr ''who''), (''id'', JStr ''000'')], timeoutMs = 100\<rparr>"
  let ?evs = "[Message hello_ctrl, Request ping None]"
  let ?s2 = "run ?s (SendDone (uid ?c) None # ?evs)"
  have a: "current ?s = Some ?c" by (simp add: bus_eval)
  have b: "uid ?c \<in> set (awaiting ?s)" by (simp add: bus_eval)
  have c: "list_all (benign ?c) ?evs"
    by (simp add: is_reply_to_def bus_eval normalizeId_nullish)
  have d: "settled ?s = []" by (simp add: bus_eval)
  have q: "map pid (queue ?s2) = [JStr ''001'']" by (simp add: bus_eval normalizeId_nullish)
  from timeout_rejects_current [of ?s ?c ?evs] a b c
  have k: "current ?s2 = Some ?c" "uid ?c \<in> set (armed ?s2)" "settled ?s2 = settled ?s"
    by blast+
  from timeout_rejects_current [of ?s2 ?c] k(1,2)
  have f: "settled (timerFire ?s2 (uid ?c)) = settled ?s2 @
        [(uid ?c, Rejected (''RS485 request '' @ js_String (pid ?c) @ '' timed out after '' @
                           string_of_nat (timeoutMs ?c) @ ''ms''))]"
    and g: "current (timerFire ?s2 (uid ?c)) =
        (case queue ?s2 of [] \<Rightarrow> None | n # rest \<Rightarrow> Some n)"
    by blast+
  have r: "run ?s [SendDone 0 None, Message hello_ctrl, Request ping None, TimerFire 0] =
      timerFire ?s2 (uid ?c)"
    by (simp add: run_def)
  have "map_option pid (current (timerFire ?s2 (uid ?c))) = Some (JStr ''001'')"
    using g q by (cases "queue ?s2") simp_all
  then show ?thesis
    using a b c d f k(3) r by (simp add: string_of_nat_100)
qed


text \<open>
  C7. The claim: every current request that was transmitted and gets no matching reply
  is rejected with a timeout error naming its id and its \<open>timeoutMs\<close>, after that
  time. This holds for a request that stays alone in flight (the two facts above). It
  fails after a reply handled during \<open>await transport.sendCommand\<close>, here the echo of
  the first request, which matches through its \<open>id\<close> field: the continuation of the
  first \<open>processQueue\<close> then acts on whichever request is current. When the first
  \<open>sendCommand\<close> throws, \<open>resolveCurrent(err)\<close> rejects request \<open>001\<close> with the error
  of the transmission of \<open>000\<close>, although \<open>001\<close> was transmitted and no reply to it
  came. When it returns, the timer set for \<open>000\<close> (10 ms) is never cleared and
  rejects \<open>001\<close> as timed out after 100 ms.
\<close>

theorem stale_send_failure_rejects_current:
  "settled (run (init new_bus)
       [Request ping None, Request who (Some 100),
        Message (JObj [(''cmd'', JStr ''ping''), (''id'', JStr ''000'')]),
        SendDone 1 None, SendDone 0 (Some ''EIO'')]) =
     [(0, Resolved (Some (JObj [(''cmd'', JStr ''ping''), (''id'', JStr ''000'')]))),
      (1, Rejected ''EIO'')] \<and>
   settled (run (init new_bus)
       [Request ping (Some 10), Request who (Some 100),
        Message (JObj [(''cmd'', JStr ''ping''), (''id'', JStr ''000'')]),
        SendDone 0 None, SendDone 1 None, TimerFire 0]) =
     [(0, Resolved (Some (JObj [(''cmd'', JStr ''ping''), (''id'', JStr ''000'')]))),
      (1, Rejected ''RS485 request 001 timed out after 100ms'')]"
  by (simp add: bus_eval string_of_nat_100)


section \<open>Direction control in \<open>sendRaw\<close>\<close>

lemma options_driveTransceiver: "options (driveTransceiver w t h) = options h"
  by (cases "driverEnableGpio h"; cases "legacyEnableGpio h"; cases "receiverEnableGpio h")
     (simp_all add: driveTransceiver_def toggle_def effects_def Let_def)

lemma trace_driveTransceiver: "\<exists>es. trace (driveTransceiver w t h) = trace h @ es"
  by (cases "driverEnableGpio h"; cases "legacyEnableGpio h"; cases "receiverEnableGpio h")
     (simp_all add: driveTransceiver_def toggle_def effects_def Let_def)

lemma trace_receive: "trace (driveTransceiver w False h) = trace h @ receive_effects w h"
  by (cases "driverEnableGpio h"; cases "legacyEnableGpio h"; cases "receiverEnableGpio h")
     (simp_all add: driveTransceiver_def toggle_def effects_def Let_def receive_effects_def
        line_write_def activeLevel_def)

lemma receive_effects_cong:
  assumes "options g = options h"
    and "(legacyEnableGpio g = None) = (legacyEnableGpio h = None)"
    and "(driverEnableGpio g = None) = (driverEnableGpio h = None)"
    and "(receiverEnableGpio g = None) = (receiverEnableGpio h = None)"
  shows "receive_effects w g = receive_effects w h"
  using assms by (simp add: receive_effects_def activeLevel_def)

lemma present_driveTransceiver:
  "(legacyEnableGpio (driveTransceiver w t h) = None) = (legacyEnableGpio h = None) \<and>
   (driverEnableGpio (driveTransceiver w t h) = None) = (driverEnableGpio h = None) \<and>
   (receiverEnableGpio (driveTransceiver w t h) = None) = (receiverEnableGpio h = None)"
  by (cases "driverEnableGpio h"; cases "legacyEnableGpio h"; cases "receiverEnableGpio h")
     (simp_all add: driveTransceiver_def toggle_def effects_def Let_def)

lemma pins_driveTransceiver_cong:
  assumes "pins g = pins h" and "options g = options h"
  shows "pins (driveTransceiver w t g) = pins (driveTransceiver w t h)"
  using assms
  by (cases "driverEnableGpio h"; cases "legacyEnableGpio h"; cases "receiverEnableGpio h")
     (simp_all add: pins_def driveTransceiver_def toggle_def effects_def Let_def activeLevel_def)

lemma receiving_driveTransceiver:
  assumes "restore_works w h"
  shows "receiving (driveTransceiver w False h)"
  using assms
  by (cases "driverEnableGpio h"; cases "legacyEnableGpio h"; cases "receiverEnableGpio h")
     (simp_all add: receiving_def restore_works_def line_at_def driveTransceiver_def toggle_def
        effects_def Let_def activeLevel_def)

lemma toggle_io_cong:
  assumes "gpio_throws v = gpio_throws w"
  shows "toggle v = toggle w"
  unfolding toggle_def assms ..

lemma driveTransceiver_io_cong:
  assumes "gpio_throws v = gpio_throws w"
  shows "driveTransceiver v t h = driveTransceiver w t h"
  by (simp only: driveTransceiver_def toggle_io_cong [OF assms])

lemma pins_effects: "pins (effects h es) = pins h"
  by (simp add: pins_def effects_def)

lemma options_effects: "options (effects h es) = options h"
  by (simp add: effects_def)

lemma trace_effects: "trace (effects h es) = trace h @ es"
  by (simp add: effects_def)

lemma receiving_cong:
  assumes "pins g = pins h" and "options g = options h"
  shows "receiving g = receiving h"
  using assms by (simp add: receiving_def pins_def activeLevel_def)

lemma pins_present:
  assumes "pins g = pins h"
  shows "(legacyEnableGpio g = None) = (legacyEnableGpio h = None) \<and>
         (driverEnableGpio g = None) = (driverEnableGpio h = None) \<and>
         (receiverEnableGpio g = None) = (receiverEnableGpio h = None)"
  using assms by (simp add: pins_def)

lemma ensurePortReady_ok:
  assumes "port h = Some True \<or> open_err w = None"
  shows "\<exists>h1 es. ensurePortReady w h = (Inr (), h1) \<and> pins h1 = pins h \<and>
           options h1 = options h \<and> trace h1 = trace h @ es"
proof (cases "port h = Some True")
  case True
  then have "ensurePortReady w h = (Inr (), h)" by (simp add: ensurePortReady_def)
  then show ?thesis by simp
next
  case False
  with assms have "open_err w = None" by simp
  with False show ?thesis
    by (simp add: ensurePortReady_def openPort_def setStatus_def attachSerialListeners_def
          effects_def pins_def Let_def)
qed

lemma write_and_drain_shape:
  "\<exists>ws. snd (write_and_drain w b h) = effects h (PortWrite b # ws)"
proof (cases "write_err w")
  case (Some e)
  then have "snd (write_and_drain w b h) = effects h (PortWrite b # [])"
    by (simp add: write_and_drain_def)
  then show ?thesis by (rule exI)
next
  case None
  show ?thesis
  proof (cases "drain_err w")
    case (Some e)
    with None have "snd (write_and_drain w b h) = effects h (PortWrite b # [PortDrain])"
      by (simp add: write_and_drain_def)
    then show ?thesis by (rule exI)
  next
    case d: None
    with None have "snd (write_and_drain w b h) =
        effects h (PortWrite b # [PortDrain, Emit (EvTx b)])"
      by (simp add: write_and_drain_def)
    then show ?thesis by (rule exI)
  qed
qed

lemma write_and_drain_result:
  "fst (write_and_drain w b h) =
     (case write_err w of
        Some e \<Rightarrow> Inl e
      | None \<Rightarrow> (case drain_err w of Some e \<Rightarrow> Inl e | None \<Rightarrow> Inr ()))"
  by (cases "write_err w"; cases "drain_err w") (simp_all add: write_and_drain_def)

lemma sendRaw_ready:
  assumes "payload_bytes pl \<noteq> []" and "ensurePortReady w h = (Inr (), h1)"
    and "pins h1 = pins h" and "options h1 = options h" and "trace h1 = trace h @ es"
  shows "fst (sendRaw w pl h) =
           (case write_err w of
              Some e \<Rightarrow> Inl e
            | None \<Rightarrow> (case drain_err w of Some e \<Rightarrow> Inl e | None \<Rightarrow> Inr ()))"
    and "pins (snd (sendRaw w pl h)) =
           pins (driveTransceiver w False (driveTransceiver w True h1))"
    and "options (snd (sendRaw w pl h)) = options h"
    and "\<exists>pre. trace (snd (sendRaw w pl h)) =
             trace h @ pre @ receive_effects w h @ turnaround h \<and>
             PortWrite (payload_bytes pl) \<in> set pre"
proof -
  let ?b = "payload_bytes pl"
  let ?h2 = "if logTraffic (options h1)
             then effects h1 [Console (''[RS485] => '' @ to_hex ?b)] else h1"
  let ?h3 = "driveTransceiver w True ?h2"
  let ?h4 = "snd (write_and_drain w ?b ?h3)"
  let ?h5 = "driveTransceiver w False ?h4"
  let ?h6 = "if turnaroundDelayMs (options ?h5) > 0
             then effects ?h5 [Sleep (turnaroundDelayMs (options ?h5))] else ?h5"
  have unfolded: "sendRaw w pl h = (fst (write_and_drain w ?b ?h3), ?h6)"
    using assms(1,2) by (simp add: sendRaw_def Let_def split_def)
  show "fst (sendRaw w pl h) =
           (case write_err w of
              Some e \<Rightarrow> Inl e
            | None \<Rightarrow> (case drain_err w of Some e \<Rightarrow> Inl e | None \<Rightarrow> Inr ()))"
    by (simp add: unfolded write_and_drain_result)
  obtain ws0 where ws0: "?h4 = effects ?h3 (PortWrite ?b # ws0)"
    using write_and_drain_shape [of w ?b ?h3] by blast
  define ws where "ws = PortWrite ?b # ws0"
  have ws: "?h4 = effects ?h3 ws" and pw: "PortWrite ?b \<in> set ws"
    using ws0 by (simp_all add: ws_def)
  have o2: "options ?h2 = options h" using assms(4) by (simp add: options_effects)
  have p2: "pins ?h2 = pins h1" by (simp add: pins_effects)
  define e2 where "e2 = (if logTraffic (options h1)
                         then [Console (''[RS485] => '' @ to_hex ?b)] else [])"
  have t2: "trace ?h2 = trace h1 @ e2" by (simp add: e2_def trace_effects)
  have o3: "options ?h3 = options h" using o2 by (simp add: options_driveTransceiver)
  obtain e3 where t3: "trace ?h3 = trace ?h2 @ e3" using trace_driveTransceiver by blast
  have o4: "options ?h4 = options h" using o3 ws by (simp add: options_effects)
  have p4: "pins ?h4 = pins ?h3" using ws by (simp add: pins_effects)
  have t4: "trace ?h4 = trace ?h3 @ ws" using ws by (simp add: trace_effects)
  have o5: "options ?h5 = options h" using o4 by (simp add: options_driveTransceiver)
  have o21: "options ?h2 = options h1" using o2 assms(4) by simp
  have p23: "pins ?h3 = pins (driveTransceiver w True h1)"
    by (rule pins_driveTransceiver_cong [OF p2 o21])
  have o43: "options ?h4 = options ?h3" using o4 o3 by simp
  have o31: "options ?h3 = options (driveTransceiver w True h1)"
    using o3 assms(4) by (simp only: options_driveTransceiver)
  have p5: "pins ?h5 = pins (driveTransceiver w False (driveTransceiver w True h1))"
  proof -
    have "pins ?h5 = pins (driveTransceiver w False ?h3)"
      by (rule pins_driveTransceiver_cong [OF p4 o43])
    also have "\<dots> = pins (driveTransceiver w False (driveTransceiver w True h1))"
      by (rule pins_driveTransceiver_cong [OF p23 o31])
    finally show ?thesis .
  qed
  have p6: "pins ?h6 = pins ?h5" by (simp add: pins_effects)
  show "pins (snd (sendRaw w pl h)) =
          pins (driveTransceiver w False (driveTransceiver w True h1))"
    using p5 p6 by (simp only: unfolded snd_conv)
  show "options (snd (sendRaw w pl h)) = options h"
    using o5 by (simp add: unfolded options_effects)
  have pres4: "(legacyEnableGpio ?h4 = None) = (legacyEnableGpio h = None) \<and>
               (driverEnableGpio ?h4 = None) = (driverEnableGpio h = None) \<and>
               (receiverEnableGpio ?h4 = None) = (receiverEnableGpio h = None)"
  proof -
    have a: "(legacyEnableGpio ?h3 = None) = (legacyEnableGpio h1 = None) \<and>
             (driverEnableGpio ?h3 = None) = (driverEnableGpio h1 = None) \<and>
             (receiverEnableGpio ?h3 = None) = (receiverEnableGpio h1 = None)"
      using present_driveTransceiver [of w True ?h2] pins_present [OF p2] by simp
    show ?thesis
      using a pins_present [OF p4] pins_present [OF assms(3)] by simp
  qed
  have re: "receive_effects w ?h4 = receive_effects w h"
    using o4 pres4 by (intro receive_effects_cong) simp_all
  have t5: "trace ?h5 = trace ?h4 @ receive_effects w h"
    using re by (simp add: trace_receive)
  have t6: "trace ?h6 = trace ?h5 @ turnaround h"
    using o5 by (simp add: turnaround_def trace_effects)
  have "trace ?h6 = trace h @ (es @ e2 @ e3 @ ws) @ receive_effects w h @ turnaround h"
    using t6 t5 t4 t3 t2 assms(5) by simp
  moreover have "PortWrite ?b \<in> set (es @ e2 @ e3 @ ws)" using pw by simp
  ultimately show "\<exists>pre. trace (snd (sendRaw w pl h)) =
             trace h @ pre @ receive_effects w h @ turnaround h \<and>
             PortWrite (payload_bytes pl) \<in> set pre"
    unfolding unfolded snd_conv by blast
qed

lemma ensurePortReady_io_cong:
  assumes "open_err v = open_err w"
  shows "ensurePortReady v h = ensurePortReady w h"
  by (simp add: ensurePortReady_def openPort_def assms)


text \<open>
  C2. For a non-empty payload and a port that is open or opens, whatever
  \<open>port.write\<close> and \<open>port.drain\<close> answer: the last things \<open>sendRaw\<close> does, after the
  write, are the writes that switch the lines back to receive and then, when
  \<open>turnaroundDelayMs > 0\<close>, the pause of that length; when those line writes do not
  throw, the lines are at their receive levels afterwards; and the lines end as they
  would with any other outcome \<open>we\<close>, \<open>de\<close> of write and drain.
\<close>

theorem sendRaw_restores_receive:
  assumes "payload_bytes pl \<noteq> []" and "port h = Some True \<or> open_err w = None"
  shows "(\<exists>pre. trace (snd (sendRaw w pl h)) =
                  trace h @ pre @ receive_effects w h @ turnaround h \<and>
                PortWrite (payload_bytes pl) \<in> set pre) \<and>
         (restore_works w h \<longrightarrow> receiving (snd (sendRaw w pl h))) \<and>
         pins (snd (sendRaw (w\<lparr>write_err := we, drain_err := de\<rparr>) pl h)) =
           pins (snd (sendRaw w pl h))"
proof -
  obtain h1 es where ready: "ensurePortReady w h = (Inr (), h1)"
    and p1: "pins h1 = pins h" and o1: "options h1 = options h"
    and t1: "trace h1 = trace h @ es"
    using ensurePortReady_ok [OF assms(2)] by blast
  note shape = sendRaw_ready [OF assms(1) ready p1 o1 t1]
  let ?v = "w\<lparr>write_err := we, drain_err := de\<rparr>"
  let ?end = "driveTransceiver w False (driveTransceiver w True h1)"
  have ready': "ensurePortReady ?v h = (Inr (), h1)"
    using ready ensurePortReady_io_cong [of ?v w h] by simp
  have "pins (snd (sendRaw ?v pl h)) =
      pins (driveTransceiver ?v False (driveTransceiver ?v True h1))"
    by (rule sendRaw_ready(2) [OF assms(1) ready' p1 o1 t1])
  moreover have "driveTransceiver ?v t g = driveTransceiver w t g" for t g
    by (rule driveTransceiver_io_cong) simp
  ultimately have same: "pins (snd (sendRaw ?v pl h)) = pins (snd (sendRaw w pl h))"
    using shape(2) by simp
  have recv: "receiving (snd (sendRaw w pl h))" if "restore_works w h"
  proof -
    have "options (snd (sendRaw w pl h)) = options ?end"
      using shape(3) o1 by (simp add: options_driveTransceiver)
    with shape(2) have "receiving (snd (sendRaw w pl h)) = receiving ?end"
      by (rule receiving_cong)
    moreover have "restore_works w (driveTransceiver w True h1)"
      using that o1 by (simp add: restore_works_def activeLevel_def options_driveTransceiver)
    ultimately show ?thesis by (simp add: receiving_driveTransceiver)
  qed
  show ?thesis using shape(4) recv same by blast
qed

lemma wired_write_error:
  "sendRaw (io_ok\<lparr>write_err := Some ''EIO''\<rparr>) (PString ''x'') wired =
     (Inl ''EIO'',
      wired\<lparr>trace := [GpioWrite ''DE'' 1, GpioWrite ''RE'' 1, PortWrite ''x'',
                        GpioWrite ''DE'' 0, GpioWrite ''RE'' 0, Sleep 2]\<rparr>)"
  by (simp add: sendRaw_def ensurePortReady_def wired_def new_handler_def DEFAULT_OPTIONS_def
        io_ok_def driveTransceiver_def toggle_def effects_def write_and_drain_def Let_def
        activeLevel_def)

theorem sendRaw_restores_receive_witness:
  "payload_bytes (PString ''x'') \<noteq> [] \<and> port wired = Some True \<and>
   restore_works (io_ok\<lparr>write_err := Some ''EIO''\<rparr>) wired \<and>
   fst (sendRaw (io_ok\<lparr>write_err := Some ''EIO''\<rparr>) (PString ''x'') wired) = Inl ''EIO'' \<and>
   receiving (snd (sendRaw (io_ok\<lparr>write_err := Some ''EIO''\<rparr>) (PString ''x'') wired)) \<and>
   pins (snd (sendRaw (io_ok\<lparr>write_err := Some ''EIO''\<rparr>) (PString ''x'') wired)) =
     pins (snd (sendRaw io_ok (PString ''x'') wired)) \<and>
   trace (snd (sendRaw (io_ok\<lparr>write_err := Some ''EIO''\<rparr>) (PString ''x'') wired)) =
     [GpioWrite ''DE'' 1, GpioWrite ''RE'' 1, PortWrite ''x'',
      GpioWrite ''DE'' 0, GpioWrite ''RE'' 0, Sleep 2]"
proof -
  let ?w = "io_ok\<lparr>write_err := Some ''EIO''\<rparr>"
  have a: "payload_bytes (PString ''x'') \<noteq> []" by simp
  have b: "port wired = Some True" by (simp add: wired_def new_handler_def)
  have c: "restore_works ?w wired" by (simp add: restore_works_def io_ok_def)
  have d: "?w\<lparr>write_err := None, drain_err := None\<rparr> = io_ok" by (simp add: io_ok_def)
  from sendRaw_restores_receive [of "PString ''x''" wired ?w None None] a b c d
  have "receiving (snd (sendRaw ?w (PString ''x'') wired))"
    and "pins (snd (sendRaw io_ok (PString ''x'') wired)) =
         pins (snd (sendRaw ?w (PString ''x'') wired))"
    by simp_all
  then show ?thesis using a b c by (simp add: wired_write_error)
qed


text \<open>
  C10. With an empty payload (an empty string or an empty buffer) \<open>sendRaw\<close> returns
  at once and leaves the handler as it was: no attempt to open the port, no line
  written, no byte written, no pause, whatever the world would have answered.
\<close>

theorem sendRaw_empty_is_noop:
  assumes "payload_bytes pl = []"
  shows "sendRaw w pl h = (Inr (), h)"
  using assms by (simp add: sendRaw_def)

theorem sendRaw_empty_is_noop_witness:
  "payload_bytes (PString []) = [] \<and> payload_bytes (PBuffer []) = [] \<and>
   sendRaw (io_ok\<lparr>open_err := Some ''ENOENT''\<rparr>) (PString []) (new_handler DEFAULT_OPTIONS) =
     (Inr (), new_handler DEFAULT_OPTIONS) \<and>
   sendRaw io_ok (PBuffer []) wired = (Inr (), wired)"
  using sendRaw_empty_is_noop [of "PString []" "io_ok\<lparr>open_err := Some ''ENOENT''\<rparr>" "new_handler DEFAULT_OPTIONS"]
    sendRaw_empty_is_noop [of "PBuffer []" io_ok wired]
  by simp


section \<open>Failure to open the port\<close>

lemma openPort_fails:
  assumes "port h \<noteq> Some True" and "open_err w = Some e" and "error_listener h"
  shows "openPort w h =
           (Inl e, scheduleReconnect
                     (h\<lparr>port := Some False, link := Fail,
                        trace := trace h @ [PortOpen, Emit (EvStatus Fail), Emit (EvError e)]\<rparr>))"
  using assms by (simp add: openPort_def setStatus_def emit_error_def effects_def Let_def)

lemma openPort_fails_unheard:
  assumes "port h \<noteq> Some True" and "open_err w = Some e" and "\<not> error_listener h"
  shows "openPort w h =
           (Inl e, h\<lparr>port := Some False, link := Fail,
                      trace := trace h @ [PortOpen, Emit (EvStatus Fail)]\<rparr>)"
  using assms by (simp add: openPort_def setStatus_def emit_error_def effects_def Let_def)

lemma error_listener_openPort: "error_listener (snd (openPort w h)) = error_listener h"
  by (simp add: openPort_def setStatus_def emit_error_def effects_def Let_def
        scheduleReconnect_def attachSerialListeners_def split: option.splits)

lemma reconnect_fire_handled:
  assumes "error_listener h"
  shows "fst (reconnect_fire w h) = Inr ()"
proof (cases "openPort w (h\<lparr>reconnectTimer := False\<rparr>)")
  case (Pair r h')
  have "error_listener h'"
    using error_listener_openPort [of w "h\<lparr>reconnectTimer := False\<rparr>"] Pair assms by simp
  then show ?thesis
    using Pair by (cases r) (simp_all add: reconnect_fire_def emit_error_def)
qed

text \<open>
  C9, as the code has it. On a handler with a listener for \<open>error\<close> events, when
  \<open>port.open\<close> fails, \<open>openPort\<close> sets the link status to fail and emits the status
  and the error as events; the reconnect timer is set afterwards exactly when it was
  set before or auto-reconnect is enabled and the handler has not been destroyed. The
  failure is not fatal: it is the rejection of the promise of \<open>openPort\<close>, which
  \<open>sendRaw\<close> hands on to its caller, and the callback of the reconnect timer, in any
  world \<open>v\<close>, ends without a rejection left unhandled; after a failed attempt it has
  emitted the error and, under the same condition, left the timer set again.
\<close>

theorem openPort_failure_schedules_reconnect:
  assumes "port h \<noteq> Some True" and "open_err w = Some e" and "error_listener h"
  shows "fst (openPort w h) = Inl e \<and>
         link (snd (openPort w h)) = Fail \<and>
         trace (snd (openPort w h)) =
           trace h @ [PortOpen, Emit (EvStatus Fail), Emit (EvError e)] @
           (if autoReconnect (options h) \<and> \<not> destroyed h \<and> \<not> reconnectTimer h
            then [SetReconnectTimer (reconnectIntervalMs (options h))] else []) \<and>
         reconnectTimer (snd (openPort w h)) =
           (reconnectTimer h \<or> autoReconnect (options h) \<and> \<not> destroyed h) \<and>
         (autoReconnect (options h) \<and> \<not> destroyed h \<longrightarrow> reconnectTimer (snd (openPort w h))) \<and>
         fst (reconnect_fire v h) = Inr () \<and>
         link (snd (reconnect_fire w h)) = Fail \<and>
         reconnectTimer (snd (reconnect_fire w h)) = (autoReconnect (options h) \<and> \<not> destroyed h) \<and>
         last (trace (snd (reconnect_fire w h))) = Emit (EvError e) \<and>
         (payload_bytes pl \<noteq> [] \<longrightarrow> fst (sendRaw w pl h) = Inl e)"
proof -
  have a: "port (h\<lparr>reconnectTimer := False\<rparr>) \<noteq> Some True" using assms(1) by simp
  have b: "error_listener (h\<lparr>reconnectTimer := False\<rparr>)" using assms(3) by simp
  have c: "fst (reconnect_fire v h) = Inr ()" using assms(3) by (rule reconnect_fire_handled)
  have d: "fst (sendRaw w pl h) = Inl e" if "payload_bytes pl \<noteq> []"
    using that assms by (simp add: sendRaw_def ensurePortReady_def openPort_fails)
  show ?thesis
    using assms c d
    by (simp add: openPort_fails reconnect_fire_def openPort_fails [OF a assms(2) b]
          scheduleReconnect_def effects_def emit_error_def)
qed

theorem openPort_failure_schedules_reconnect_witness:
  "port (on_error (new_handler DEFAULT_OPTIONS)) \<noteq> Some True \<and>
   open_err (io_ok\<lparr>open_err := Some ''ENOENT''\<rparr>) = Some ''ENOENT'' \<and>
   error_listener (on_error (new_handler DEFAULT_OPTIONS)) \<and>
   openPort (io_ok\<lparr>open_err := Some ''ENOENT''\<rparr>) (on_error (new_handler DEFAULT_OPTIONS)) =
     (Inl ''ENOENT'',
      (on_error (new_handler DEFAULT_OPTIONS))
        \<lparr>port := Some False, reconnectTimer := True, link := Fail,
         trace := [PortOpen, Emit (EvStatus Fail), Emit (EvError ''ENOENT''),
                   SetReconnectTimer 5000]\<rparr>) \<and>
   fst (reconnect_fire (io_ok\<lparr>open_err := Some ''ENOENT''\<rparr>)
          (on_error (new_handler DEFAULT_OPTIONS))) = Inr () \<and>
   reconnectTimer (snd (reconnect_fire (io_ok\<lparr>open_err := Some ''ENOENT''\<rparr>)
                          (on_error (new_handler DEFAULT_OPTIONS)))) \<and>
   fst (sendRaw (io_ok\<lparr>open_err := Some ''ENOENT''\<rparr>) (PString ''x'')
          (on_error (new_handler DEFAULT_OPTIONS))) = Inl ''ENOENT''"
proof -
  let ?w = "io_ok\<lparr>open_err := Some ''ENOENT''\<rparr>"
  let ?h = "on_error (new_handler DEFAULT_OPTIONS)"
  have a: "port ?h \<noteq> Some True" by (simp add: new_handler_def on_error_def)
  have b: "open_err ?w = Some ''ENOENT''" by simp
  have l: "error_listener ?h" by (simp add: on_error_def)
  have c: "autoReconnect (options ?h) \<and> \<not> destroyed ?h"
    by (simp add: new_handler_def DEFAULT_OPTIONS_def on_error_def)
  have p: "payload_bytes (PString ''x'') \<noteq> []" by simp
  have d: "openPort ?w ?h =
     (Inl ''ENOENT'',
      ?h\<lparr>port := Some False, reconnectTimer := True, link := Fail,
         trace := [PortOpen, Emit (EvStatus Fail), Emit (EvError ''ENOENT''),
                   SetReconnectTimer 5000]\<rparr>)"
    by (simp add: openPort_def setStatus_def emit_error_def scheduleReconnect_def effects_def
          Let_def new_handler_def DEFAULT_OPTIONS_def io_ok_def on_error_def)
  note inst = openPort_failure_schedules_reconnect [OF a b l, of ?w "PString ''x''"]
  from inst c p
  have "fst (reconnect_fire ?w ?h) = Inr ()"
    and "reconnectTimer (snd (reconnect_fire ?w ?h))"
    and "fst (sendRaw ?w (PString ''x'') ?h) = Inl ''ENOENT''"
    by simp_all
  then show ?thesis using a b l d by simp
qed

text \<open>
  The claim as stated fails on two inputs. A handler that has been destroyed (and has
  a listener): \<open>scheduleReconnect\<close> returns at its guard \<open>this.destroyed\<close>, and no
  timer is set although auto-reconnect is enabled. A handler without a listener for
  \<open>error\<close>: \<open>emit("error", err)\<close> in \<open>setStatus\<close> throws, so the error is not
  surfaced as an event, \<open>scheduleReconnect\<close> is not reached, and a reconnect attempt
  ends in a rejection that nobody handles.
\<close>

theorem openPort_failure_counterexample:
  "error_listener (snd (destroy io_ok (on_error (new_handler DEFAULT_OPTIONS)))) \<and>
   port (snd (destroy io_ok (on_error (new_handler DEFAULT_OPTIONS)))) \<noteq> Some True \<and>
   autoReconnect (options (snd (destroy io_ok (on_error (new_handler DEFAULT_OPTIONS))))) \<and>
   fst (openPort (io_ok\<lparr>open_err := Some ''ENOENT''\<rparr>)
          (snd (destroy io_ok (on_error (new_handler DEFAULT_OPTIONS))))) = Inl ''ENOENT'' \<and>
   link (snd (openPort (io_ok\<lparr>open_err := Some ''ENOENT''\<rparr>)
          (snd (destroy io_ok (on_error (new_handler DEFAULT_OPTIONS)))))) = Fail \<and>
   \<not> reconnectTimer (snd (openPort (io_ok\<lparr>open_err := Some ''ENOENT''\<rparr>)
          (snd (destroy io_ok (on_error (new_handler DEFAULT_OPTIONS)))))) \<and>
   \<not> error_listener (new_handler DEFAULT_OPTIONS) \<and>
   port (new_handler DEFAULT_OPTIONS) \<noteq> Some True \<and>
   autoReconnect (options (new_handler DEFAULT_OPTIONS)) \<and>
   \<not> destroyed (new_handler DEFAULT_OPTIONS) \<and>
   openPort (io_ok\<lparr>open_err := Some ''ENOENT''\<rparr>) (new_handler DEFAULT_OPTIONS) =
     (Inl ''ENOENT'',
      (new_handler DEFAULT_OPTIONS)
        \<lparr>port := Some False, link := Fail, trace := [PortOpen, Emit (EvStatus Fail)]\<rparr>) \<and>
   \<not> reconnectTimer (snd (openPort (io_ok\<lparr>open_err := Some ''ENOENT''\<rparr>)
          (new_handler DEFAULT_OPTIONS))) \<and>
   fst (reconnect_fire (io_ok\<lparr>open_err := Some ''ENOENT''\<rparr>) (new_handler DEFAULT_OPTIONS)) =
     Inl ''ENOENT''"
  by (simp add: openPort_def setStatus_def emit_error_def scheduleReconnect_def effects_def
        Let_def new_handler_def DEFAULT_OPTIONS_def io_ok_def destroy_def closePort_def
        clearReconnectTimer_def releaseGpio_def on_error_def reconnect_fire_def)


section \<open>Heartbeat staleness\<close>

lemma markRemoteDisconnected_connected:
  assumes "connected (remote d)"
  shows "markRemoteDisconnected now (Some ''Remote heartbeat timeout'') True d =
           (True, d\<lparr>remote := (remote d)\<lparr>connected := False, disconnectedAt := Some now,
                                    reason := Some ''Remote heartbeat timeout''\<rparr>,
                     rs_status := (if rs_status d = Connected then Disconnected else rs_status d),
                     rs_error := Some ''Remote heartbeat timeout''\<rparr>)"
  using assms by (simp add: markRemoteDisconnected_def Let_def)

lemma heartbeat_tick_stale:
  assumes "connected (remote d)" and "lastHeartbeat (remote d) = Some t" and "t \<noteq> 0"
    and "timeout < now - t"
  shows "heartbeat_tick timeout now d =
           broadcastStatusUpdate
             (d\<lparr>remote := (remote d)\<lparr>connected := False, disconnectedAt := Some now,
                                    reason := Some ''Remote heartbeat timeout''\<rparr>,
                rs_status := (if rs_status d = Connected then Disconnected else rs_status d),
                rs_error := Some ''Remote heartbeat timeout''\<rparr>)"
  using assms by (simp add: heartbeat_tick_def markRemoteDisconnected_connected)

lemma hello_connects:
  assumes "js_get pl ''hello'' = Some (JStr name)"
  shows "connected (remote (handleRemotePayload t0 pl d)) \<and>
         lastHeartbeat (remote (handleRemotePayload t0 pl d)) = Some t0 \<and>
         device (remote (handleRemotePayload t0 pl d)) = Some name \<and>
         rs_status (handleRemotePayload t0 pl d) = Connected"
proof -
  obtain kvs where "pl = JObj kvs" using assms by (cases pl) simp_all
  then show ?thesis
    using assms
    by (simp add: handleRemotePayload_def js_string_field_def js_number_field_def Let_def
          broadcastStatusUpdate_def refresh_heartbeat_def mark_connected_def
          split: option.splits json.splits)
qed


text \<open>
  C8. The monitor, started with a positive heartbeat timeout, ticks every
  \<open>max 1000 (timeout div 2)\<close> milliseconds. A tick that finds the remote connected,
  with a last heartbeat (a non-zero timestamp) older than the timeout, sets
  \<open>connected\<close> to false, records \<open>disconnectedAt\<close>, sets the reason to
  \<open>Remote heartbeat timeout\<close> and turns a link status \<open>connected\<close> into
  \<open>disconnected\<close>. In particular a \<open>hello\<close> from \<open>ctrl-1\<close> at time \<open>t0\<close> sets
  \<open>connected\<close>, and a tick at a time \<open>t1\<close> more than the timeout later, with nothing
  received in between, sets it to false with that reason.
\<close>

theorem heartbeat_staleness:
  "(0 < timeout \<and> heartbeatMonitorTimer d = None \<longrightarrow>
      heartbeatMonitorTimer (startHeartbeatMonitor timeout d) = Some (max 1000 (timeout div 2))) \<and>
   (connected (remote d) \<and> lastHeartbeat (remote d) = Some t \<and> t \<noteq> 0 \<and> timeout < now - t \<longrightarrow>
      \<not> connected (remote (heartbeat_tick timeout now d)) \<and>
      disconnectedAt (remote (heartbeat_tick timeout now d)) = Some now \<and>
      reason (remote (heartbeat_tick timeout now d)) = Some ''Remote heartbeat timeout'' \<and>
      rs_status (heartbeat_tick timeout now d) =
        (if rs_status d = Connected then Disconnected else rs_status d)) \<and>
   (js_get pl ''hello'' = Some (JStr ''ctrl-1'') \<and> t0 \<noteq> 0 \<and> timeout < t1 - t0 \<longrightarrow>
      connected (remote (handleRemotePayload t0 pl d)) \<and>
      \<not> connected (remote (heartbeat_tick timeout t1 (handleRemotePayload t0 pl d))) \<and>
      reason (remote (heartbeat_tick timeout t1 (handleRemotePayload t0 pl d))) =
        Some ''Remote heartbeat timeout'' \<and>
      rs_status (heartbeat_tick timeout t1 (handleRemotePayload t0 pl d)) = Disconnected)"
proof -
  have "heartbeatMonitorTimer (startHeartbeatMonitor timeout d) = Some (max 1000 (timeout div 2))"
    if "0 < timeout" and "heartbeatMonitorTimer d = None"
    using that by (simp add: startHeartbeatMonitor_def)
  moreover have "\<not> connected (remote (heartbeat_tick timeout now d)) \<and>
      disconnectedAt (remote (heartbeat_tick timeout now d)) = Some now \<and>
      reason (remote (heartbeat_tick timeout now d)) = Some ''Remote heartbeat timeout'' \<and>
      rs_status (heartbeat_tick timeout now d) =
        (if rs_status d = Connected then Disconnected else rs_status d)"
    if "connected (remote d)" and "lastHeartbeat (remote d) = Some t" and "t \<noteq> 0"
      and "timeout < now - t"
    using heartbeat_tick_stale [OF that] by (simp add: broadcastStatusUpdate_def)
  moreover have "connected (remote (handleRemotePayload t0 pl d)) \<and>
      \<not> connected (remote (heartbeat_tick timeout t1 (handleRemotePayload t0 pl d))) \<and>
      reason (remote (heartbeat_tick timeout t1 (handleRemotePayload t0 pl d))) =
        Some ''Remote heartbeat timeout'' \<and>
      rs_status (heartbeat_tick timeout t1 (handleRemotePayload t0 pl d)) = Disconnected"
    if "js_get pl ''hello'' = Some (JStr ''ctrl-1'')" and "t0 \<noteq> 0" and "timeout < t1 - t0"
  proof -
    let ?d = "handleRemotePayload t0 pl d"
    note hc = hello_connects [OF that(1), of t0 d]
    from hc have c: "connected (remote ?d)" and l: "lastHeartbeat (remote ?d) = Some t0"
      and s: "rs_status ?d = Connected" by simp_all
    show ?thesis
      using heartbeat_tick_stale [OF c l that(2,3)] c s by (simp add: broadcastStatusUpdate_def)
  qed
  ultimately show ?thesis by blast
qed

theorem heartbeat_staleness_witness:
  "heartbeatMonitorTimer (startHeartbeatMonitor 15000 new_daemon) = Some 7500 \<and>
   heartbeatMonitorTimer (startHeartbeatMonitor 1500 new_daemon) = Some 1000 \<and>
   connected (remote (handleRemotePayload 1000 hello_ctrl new_daemon)) \<and>
   remote (heartbeat_tick 15000 16001 (handleRemotePayload 1000 hello_ctrl new_daemon)) =
     \<lparr>connected = False, device = Some ''ctrl-1'', speed = None, lastHeartbeat = Some 1000,
      connectedAt = Some 1000, disconnectedAt = Some 16001,
      reason = Some ''Remote heartbeat timeout''\<rparr> \<and>
   rs_status (heartbeat_tick 15000 16001 (handleRemotePayload 1000 hello_ctrl new_daemon)) =
     Disconnected \<and>
   connected (remote (heartbeat_tick 15000 16000 (handleRemotePayload 1000 hello_ctrl new_daemon)))"
proof -
  let ?d = "handleRemotePayload 1000 hello_ctrl new_daemon"
  have a: "heartbeatMonitorTimer new_daemon = None" by (simp add: new_daemon_def)
  have b: "js_get hello_ctrl ''hello'' = Some (JStr ''ctrl-1'')" by (simp add: hello_ctrl_def)
  have c: "?d = \<lparr>rs_status = Connected, rs_error = None,
      remote = \<lparr>connected = True, device = Some ''ctrl-1'', speed = None,
                lastHeartbeat = Some 1000, connectedAt = Some 1000, disconnectedAt = None,
                reason = None\<rparr>,
      heartbeatMonitorTimer = None, status_updates = 1\<rparr>"
    by (simp add: handleRemotePayload_def js_string_field_def js_number_field_def Let_def
          broadcastStatusUpdate_def refresh_heartbeat_def mark_connected_def hello_ctrl_def
          new_daemon_def)
  have d: "connected (remote (heartbeat_tick 15000 16000 ?d))"
    by (simp add: c heartbeat_tick_def)
  have e: "remote (heartbeat_tick 15000 16001 ?d) =
     \<lparr>connected = False, device = Some ''ctrl-1'', speed = None, lastHeartbeat = Some 1000,
      connectedAt = Some 1000, disconnectedAt = Some 16001,
      reason = Some ''Remote heartbeat timeout''\<rparr>"
    by (simp add: c heartbeat_tick_def markRemoteDisconnected_def broadcastStatusUpdate_def
          Let_def)
  from heartbeat_staleness [of 15000 new_daemon _ _ hello_ctrl 1000 16001] a b
  have f: "heartbeatMonitorTimer (startHeartbeatMonitor 15000 new_daemon) = Some 7500"
    and g: "rs_status (heartbeat_tick 15000 16001 ?d) = Disconnected"
    by simp_all
  from heartbeat_staleness [of 1500 new_daemon] a
  have h: "heartbeatMonitorTimer (startHeartbeatMonitor 1500 new_daemon) = Some 1000"
    by simp
  show ?thesis using f g h d e c by simp
qed

end
